theory Spec2Isabelle
  imports Complex_Main "HOL-Library.DAList"
begin

section \<open>Window manager core of Wiqnnc\_ (src/index.js)\<close>

text \<open>
  The development embeds the window registry of \<^verbatim>\<open>src/index.js\<close>: the global
  \<^verbatim>\<open>state\<close> object (lines 15-36), \<^verbatim>\<open>createWindow\<close>, \<^verbatim>\<open>focusWindow\<close>,
  \<^verbatim>\<open>closeWindow\<close>, \<^verbatim>\<open>minimizeWindow\<close>, \<^verbatim>\<open>restoreWindow\<close>,
  \<^verbatim>\<open>toggleMaximizeWindow\<close> (lines 218-406), the drag, snap and resize handlers
  (lines 419-634), \<^verbatim>\<open>openApp\<close> and \<^verbatim>\<open>toggleDockVisibility\<close> (lines 881-950).

  Conventions.
  \<^item> JavaScript numbers are idealised: pixel quantities are \<open>real\<close>, the z-index counter
    is \<open>int\<close>, \<^verbatim>\<open>Date.now()\<close> is \<open>nat\<close>.
  \<^item> Everything the code reads from its surroundings (clock, \<^verbatim>\<open>Math.random()\<close>,
    DOM look-ups and layout metrics, pointer coordinates) is an explicit argument.
  \<^item> Mutation of the global \<^verbatim>\<open>state\<close> is explicit state passing.
  \<^item> \<^verbatim>\<open>state.windows\<close> is a JavaScript \<^verbatim>\<open>Map\<close>: insertion ordered, one entry per
    key. It is an association list with distinct keys (\<open>('k, 'v) alist\<close>);
    \<open>DAList.update\<close> replaces in place or appends, as \<^verbatim>\<open>Map.set\<close> does.
  \<^item> A record is stored under its own \<^verbatim>\<open>id\<close> (line 272 is the only insertion and
    \<^verbatim>\<open>id\<close> is never assigned afterwards), so the field \<^verbatim>\<open>id\<close> of a record is the key
    of its entry; \<^verbatim>\<open>win.id\<close> is the first component of the entry.
  \<^item> Fields that only drive presentation (\<^verbatim>\<open>title\<close>, \<^verbatim>\<open>appSpecificState\<close>,
    \<^verbatim>\<open>isShaking\<close>, \<^verbatim>\<open>lastDragTime\<close>, \<^verbatim>\<open>lastDragX\<close>, CSS classes, the dock and the
    menu bar title) are left out; the inline geometry \<^verbatim>\<open>element.style.{top,left,width,height}\<close>
    is kept because the registry saves and restores it.
  \<^item> A handler that captured a record (\<^verbatim>\<open>windowData\<close>) or its element when the window
    was created acts on the registry entry of that id, and the close timer removes the
    entry of the id it was started for. The captured record is the registered one for as
    long as no second record is stored under the same id; after such a collision the
    first element stays in the document, its listeners still call the registry functions
    with that id (these calls are events of the model), and its own inline geometry is
    not part of the model.
\<close>

subsection \<open>Data model\<close>

text \<open>
  An inline CSS length as the code writes it: \<open>Px n\<close> is \<^verbatim>\<open>`${n}px`\<close>,
  \<open>CalcVw p d\<close> is \<^verbatim>\<open>calc(p vw + d px)\<close>, \<open>CalcVh p d\<close> is \<^verbatim>\<open>calc(p vh + d px)\<close>,
  \<open>Unset\<close> is the empty inline value (the stylesheet decides).
\<close>

datatype css_value = Px real | CalcVw real real | CalcVh real real | Unset

record geometry =
  style_top :: css_value
  style_left :: css_value
  style_width :: css_value
  style_height :: css_value

datatype snap_position = SnapLeft | SnapRight | SnapTop

text \<open>The interface \<^verbatim>\<open>AppWindow\<close>; absent optional fields are \<open>None\<close> or \<open>False\<close>.\<close>

record AppWindow =
  baseAppId :: string
  isMinimized :: bool
  isOpen :: bool
  zIndex :: int
  originalPosition :: "geometry option"
  isMaximized :: bool
  isSnapping :: "snap_position option"
  style :: geometry

text \<open>
  The handlers installed on \<^verbatim>\<open>document.onmousemove\<close> / \<^verbatim>\<open>document.onmouseup\<close>,
  with the variables their closures capture: a drag keeps the target window and the
  pointer offset, a resize the target window, the start pointer and the start size.
\<close>

datatype pointer_session =
  NoSession
  | DragSession string real real
  | ResizeSession string real real real real

text \<open>
  The global \<^verbatim>\<open>state\<close>. \<open>closeTimers\<close> are the pending 200 ms callbacks of
  \<^verbatim>\<open>closeWindow\<close> in the order they were scheduled; \<open>windowMenu\<close> are the
  \<^verbatim>\<open>focus-window-<id>\<close> items that \<^verbatim>\<open>updateWindowMenu\<close> last built.
\<close>

record state =
  windows :: "(string, AppWindow) alist"
  activeWindowId :: "string option"
  nextZIndex :: int
  isDockVisible :: bool
  closeTimers :: "string list"
  windowMenu :: "string list"
  pointerSession :: pointer_session

definition entries :: "state \<Rightarrow> (string \<times> AppWindow) list" where
  "entries s = DAList.impl_of (windows s)"

definition getWindow :: "state \<Rightarrow> string \<Rightarrow> AppWindow option" where
  "getWindow s k = DAList.lookup (windows s) k"

text \<open>In-place mutation of the record stored under \<open>k\<close>; nothing happens without it.\<close>

definition modifyWindow :: "string \<Rightarrow> (AppWindow \<Rightarrow> AppWindow) \<Rightarrow> state \<Rightarrow> state" where
  "modifyWindow k f s = s\<lparr>windows := DAList.map_entry k f (windows s)\<rparr>"

definition initial_state :: state where
  "initial_state = \<lparr>windows = DAList.empty, activeWindowId = None, nextZIndex = 100,
     isDockVisible = True, closeTimers = [], windowMenu = [], pointerSession = NoSession\<rparr>"

subsection \<open>Focus, close, minimize, maximize\<close>

definition updateWindowMenu :: "state \<Rightarrow> state" where
  "updateWindowMenu s =
     s\<lparr>windowMenu := map fst (filter (\<lambda>(k, win). isOpen win \<and> \<not> isMinimized win) (entries s))\<rparr>"

text \<open>
  \<^verbatim>\<open>focusWindow(id)\<close>, lines 293-316. \<open>None\<close> is \<^verbatim>\<open>null\<close>; the empty string is falsy too.
\<close>

definition focusWindow :: "string option \<Rightarrow> state \<Rightarrow> state" where
  "focusWindow i s =
     (case (case i of None \<Rightarrow> None | Some k \<Rightarrow> if k = [] then None else getWindow s k) of
        None \<Rightarrow> s\<lparr>activeWindowId := None\<rparr>
      | Some windowData \<Rightarrow>
          if activeWindowId s = i \<and> zIndex windowData = nextZIndex s - 1
             \<and> \<not> isMinimized windowData
          then s
          else modifyWindow (the i) (\<lambda>w. w\<lparr>zIndex := nextZIndex s\<rparr>)
                 (s\<lparr>activeWindowId := i, nextZIndex := nextZIndex s + 1\<rparr>))"

text \<open>
  \<^verbatim>\<open>closeWindow(id)\<close>, lines 319-342: the synchronous part, and the callback that
  \<^verbatim>\<open>setTimeout\<close> runs 200 ms later.
\<close>

definition closeWindow :: "string \<Rightarrow> state \<Rightarrow> state" where
  "closeWindow k s =
     (case getWindow s k of
        None \<Rightarrow> s
      | Some windowData \<Rightarrow>
          (modifyWindow k (\<lambda>w. w\<lparr>isOpen := False\<rparr>) s)\<lparr>closeTimers := closeTimers s @ [k]\<rparr>)"

definition closeWindowTimeout :: "string \<Rightarrow> state \<Rightarrow> state" where
  "closeWindowTimeout k s =
     (let s1 = s\<lparr>windows := DAList.delete k (windows s)\<rparr>;
          s2 = (if activeWindowId s1 = Some k then focusWindow None s1 else s1)
      in updateWindowMenu s2)"

text \<open>\<^verbatim>\<open>minimizeWindow(id)\<close>, lines 344-361.\<close>

definition minimizeWindow :: "string \<Rightarrow> state \<Rightarrow> state" where
  "minimizeWindow k s =
     (case getWindow s k of
        None \<Rightarrow> s
      | Some windowData \<Rightarrow>
          if \<not> isMinimized windowData then
            (let s1 = modifyWindow k
                        (\<lambda>w. w\<lparr>originalPosition := Some (style w),
                                isMaximized := False, isMinimized := True\<rparr>) s;
                 s2 = (if activeWindowId s1 = Some k then focusWindow None s1 else s1)
             in updateWindowMenu s2)
          else s)"

text \<open>\<^verbatim>\<open>toggleMaximizeWindow(id)\<close>, lines 383-406.\<close>

definition toggleMaximizeWindow :: "string \<Rightarrow> state \<Rightarrow> state" where
  "toggleMaximizeWindow k s =
     (case getWindow s k of
        None \<Rightarrow> s
      | Some windowData \<Rightarrow>
          if isMaximized windowData then
            modifyWindow k
              (\<lambda>w. w\<lparr>style := (case originalPosition w of Some p \<Rightarrow> p | None \<Rightarrow> style w),
                      isMaximized := False\<rparr>) s
          else
            modifyWindow k
              (\<lambda>w. w\<lparr>originalPosition := Some (style w), isMaximized := True\<rparr>) s)"

subsection \<open>Application table and window creation\<close>

text \<open>
  The entries of \<^verbatim>\<open>APP_DEFINITIONS\<close> (lines 72-92) with the fields the registry reads;
  \<^verbatim>\<open>defaultWidth: '700px'\<close> is \<open>Some (Px 700)\<close>, an absent field is \<open>None\<close> or \<open>False\<close>.
\<close>

record AppDef =
  def_id :: string
  isLaunchable :: bool
  allowMultipleInstances :: bool
  contentTemplateId :: "string option"
  defaultWidth :: "css_value option"
  defaultHeight :: "css_value option"

definition appDef ::
  "string \<Rightarrow> bool \<Rightarrow> bool \<Rightarrow> string option \<Rightarrow> css_value option \<Rightarrow> css_value option \<Rightarrow> AppDef" where
  "appDef i l m t w h = \<lparr>def_id = i, isLaunchable = l, allowMultipleInstances = m,
     contentTemplateId = t, defaultWidth = w, defaultHeight = h\<rparr>"

definition APP_DEFINITIONS :: "AppDef list" where
  "APP_DEFINITIONS =
    [appDef ''About'' True False (Some ''about-content'') None None,
     appDef ''AppLibraryLauncher'' False False None None None,
     appDef ''Portfolio'' True False (Some ''portfolio-content'') (Some (Px 700)) (Some (Px 550)),
     appDef ''WinsAssistant'' True False (Some ''wins-assistant-content'') (Some (Px 420)) (Some (Px 550)),
     appDef ''Settings'' True False (Some ''settings-content'') (Some (Px 500)) (Some (Px 480)),
     appDef ''Terminal'' True False (Some ''terminal-content'') None None,
     appDef ''Notepad'' True True (Some ''notepad-content'') None None,
     appDef ''StickyNotes'' True True (Some ''sticky-notes-content'') (Some (Px 250)) (Some (Px 250)),
     appDef ''Calculator'' True False (Some ''calculator-content'') (Some (Px 320)) (Some (Px 420)),
     appDef ''MusicPlayer'' True False (Some ''musicplayer-content'') (Some (Px 300)) (Some (Px 320)),
     appDef ''SystemMonitor'' True False (Some ''systemmonitor-content'') None (Some (Px 380)),
     appDef ''WBrowse'' True True (Some ''w-browse-content'') (Some (Px 800)) (Some (Px 600)),
     appDef ''Achievements'' True False (Some ''achievements-content'') (Some (Px 550)) None,
     appDef ''Contact'' True False (Some ''contact-content'') None None,
     appDef ''Help'' True False (Some ''help-content'') None None,
     appDef ''AboutWiqnnc'' True False (Some ''about-this-wiqnnc-content'') None None,
     appDef ''MatrixRain'' True True (Some ''matrix-rain-content'') (Some (Px 700)) (Some (Px 500)),
     appDef ''Credits'' True True (Some ''credits-content'') (Some (Px 400)) (Some (Px 450)),
     appDef ''Trash'' False False None None None]"

definition findAppDef :: "string \<Rightarrow> AppDef option" where
  "findAppDef appId = find (\<lambda>app. def_id app = appId) APP_DEFINITIONS"

text \<open>The decimal numeral that a template literal prints for a non-negative integer.\<close>

function dec :: "nat \<Rightarrow> string" where
  "dec n = (if n < 10 then [''0123456789'' ! n]
            else dec (n div 10) @ [''0123456789'' ! (n mod 10)])"
  by pat_completeness auto
termination
  by (relation "measure id") auto

declare dec.simps [simp del]

text \<open>
  What a creation reads from outside: \<^verbatim>\<open>Date.now()\<close>, the two \<^verbatim>\<open>Math.random()\<close>
  draws of \<^verbatim>\<open>openApp\<close>, and whether \<^verbatim>\<open>document.getElementById(contentTemplateId)\<close>
  finds the template.
\<close>

record creation_env =
  now :: nat
  random_x :: real
  random_y :: real
  templateFound :: bool

text \<open>
  The \<^verbatim>\<open>options\<close> argument of \<^verbatim>\<open>createWindow\<close>. Every caller passes \<^verbatim>\<open>x\<close> and \<^verbatim>\<open>y\<close>
  (lines 157, 673, 911-912, 923-924), so the \<^verbatim>\<open>??\<close> fall-backs of lines 255-256 never run.
\<close>

record options =
  opt_baseAppId :: string
  opt_x :: real
  opt_y :: real
  opt_width :: "css_value option"
  opt_height :: "css_value option"

text \<open>Line 221: the two window kinds that have no entry in \<^verbatim>\<open>APP_DEFINITIONS\<close>.\<close>

definition isSpecialCase :: "string \<Rightarrow> bool" where
  "isSpecialCase appId \<longleftrightarrow> appId \<in> set [''ErrorApiKey'', ''TrashMessage'']"

definition sameOpenApp :: "string \<Rightarrow> string \<times> AppWindow \<Rightarrow> bool" where
  "sameOpenApp appId = (\<lambda>(k, win). baseAppId win = appId \<and> isOpen win)"

definition windowId :: "string \<Rightarrow> nat \<Rightarrow> string" where
  "windowId appId t = appId @ ''-'' @ dec t"

definition first_of :: "'a option \<Rightarrow> 'a option \<Rightarrow> 'a option" where
  "first_of a b = (case a of Some v \<Rightarrow> Some v | None \<Rightarrow> b)"

definition newWindow :: "options \<Rightarrow> AppDef option \<Rightarrow> int \<Rightarrow> AppWindow" where
  "newWindow opts d z =
     \<lparr>baseAppId = opt_baseAppId opts, isMinimized = False, isOpen = True, zIndex = z,
      originalPosition = None, isMaximized = False, isSnapping = None,
      style = \<lparr>style_top = Px (opt_y opts), style_left = Px (opt_x opts),
               style_width =
                 (case first_of (opt_width opts) (case d of None \<Rightarrow> None | Some a \<Rightarrow> defaultWidth a)
                  of Some v \<Rightarrow> v | None \<Rightarrow> Unset),
               style_height =
                 (case first_of (opt_height opts) (case d of None \<Rightarrow> None | Some a \<Rightarrow> defaultHeight a)
                  of Some v \<Rightarrow> v | None \<Rightarrow> Unset)\<rparr>\<rparr>"

text \<open>
  The options \<^verbatim>\<open>openApp\<close> passes to \<^verbatim>\<open>createWindow\<close>: lines 907-915 when the content
  template is missing from the document, lines 920-929 otherwise.
\<close>

definition openAppOptions :: "string \<Rightarrow> AppDef \<Rightarrow> creation_env \<Rightarrow> state \<Rightarrow> options" where
  "openAppOptions appId d e s =
     (let x = random_x e * 200 + 50 + real (length (entries s) * 25 mod 250);
          y = random_y e * 100 + 50 + real (length (entries s) * 25 mod 150)
      in if contentTemplateId d \<noteq> None \<and> \<not> templateFound e
         then \<lparr>opt_baseAppId = appId, opt_x = x, opt_y = y,
               opt_width = first_of (defaultWidth d) (Some (Px 400)),
               opt_height = first_of (defaultHeight d) (Some (Px 300))\<rparr>
         else \<lparr>opt_baseAppId = appId, opt_x = x, opt_y = y,
               opt_width = defaultWidth d, opt_height = defaultHeight d\<rparr>)"

lemma entries_getWindow: "(k, w) \<in> set (entries s) \<longleftrightarrow> getWindow s k = Some w"
  unfolding entries_def getWindow_def by (simp add: DAList.lookup.rep_eq)

lemma find_sameOpenApp:
  assumes "find (sameOpenApp a) (entries s) = Some (k, w)"
  shows "getWindow s k = Some w \<and> baseAppId w = a \<and> isOpen w"
proof -
  from assms have "(k, w) \<in> set (entries s)" "sameOpenApp a (k, w)"
    by (auto simp: find_Some_iff in_set_conv_nth)
  then show ?thesis by (simp add: entries_getWindow sameOpenApp_def)
qed

lemma filter_sameOpenApp:
  assumes "filter (sameOpenApp a) (entries s) = (k, w) # rest"
  shows "getWindow s k = Some w \<and> baseAppId w = a \<and> isOpen w"
proof -
  have "(k, w) \<in> set (filter (sameOpenApp a) (entries s))" by (simp add: assms)
  then show ?thesis by (simp add: entries_getWindow sameOpenApp_def)
qed

text \<open>
  \<^verbatim>\<open>createWindow\<close> (lines 218-291), \<^verbatim>\<open>restoreWindow\<close> (lines 363-381) and \<^verbatim>\<open>openApp\<close>
  (lines 881-930) call one another. The result of \<^verbatim>\<open>createWindow\<close> is ignored by every
  caller; the application's own setup hook is outside the registry. Lines 891-899 of
  \<^verbatim>\<open>openApp\<close> only touch \<^verbatim>\<open>appSpecificState\<close> of a browser window and are left out.
\<close>

function createWindow :: "options \<Rightarrow> creation_env \<Rightarrow> state \<Rightarrow> state"
  and restoreWindow :: "string \<Rightarrow> creation_env \<Rightarrow> state \<Rightarrow> state"
  and openApp :: "string \<Rightarrow> creation_env \<Rightarrow> state \<Rightarrow> state"
where
  "createWindow opts e s =
     (let d = findAppDef (opt_baseAppId opts)
      in if d = None \<and> \<not> isSpecialCase (opt_baseAppId opts) then s
         else if \<not> (case d of None \<Rightarrow> False | Some a \<Rightarrow> allowMultipleInstances a)
                 \<and> list_ex (sameOpenApp (opt_baseAppId opts)) (entries s)
         then (case find (sameOpenApp (opt_baseAppId opts)) (entries s) of
                 None \<Rightarrow> s
               | Some (k, existingWindow) \<Rightarrow>
                   focusWindow (Some k)
                     (if isMinimized existingWindow then restoreWindow k e s else s))
         else (let k = windowId (opt_baseAppId opts) (now e);
                   s1 = s\<lparr>windows := DAList.update k (newWindow opts d (nextZIndex s)) (windows s),
                          nextZIndex := nextZIndex s + 1\<rparr>
               in updateWindowMenu (focusWindow (Some k) s1)))"
| "restoreWindow k e s =
     (case getWindow s k of
        None \<Rightarrow> s
      | Some windowData \<Rightarrow>
          if isMinimized windowData then
            updateWindowMenu (focusWindow (Some k)
              (modifyWindow k
                 (\<lambda>w. w\<lparr>style := (case originalPosition w of Some p \<Rightarrow> p | None \<Rightarrow> style w),
                         isMinimized := False\<rparr>) s))
          else if \<not> isOpen windowData then openApp (baseAppId windowData) e s
          else focusWindow (Some k) s)"
| "openApp appId e s =
     (case findAppDef appId of
        None \<Rightarrow> s
      | Some d \<Rightarrow>
          if \<not> isLaunchable d then s
          else (case filter (sameOpenApp appId) (entries s) of
                  (k, existingWindow) # rest \<Rightarrow>
                    if \<not> allowMultipleInstances d then restoreWindow k e s
                    else createWindow (openAppOptions appId d e s) e s
                | [] \<Rightarrow> createWindow (openAppOptions appId d e s) e s))"
  by pat_completeness auto

termination
  by (relation "measure (\<lambda>c. case c of
          Inl (opts, e, s) \<Rightarrow> 1
        | Inr (Inl (k, e, s)) \<Rightarrow>
            (case getWindow s k of
               None \<Rightarrow> 0
             | Some w \<Rightarrow> if \<not> isMinimized w \<and> \<not> isOpen w then 3 else 0)
        | Inr (Inr (appId, e, s)) \<Rightarrow> (2::nat))")
     (auto dest!: find_sameOpenApp filter_sameOpenApp)

declare createWindow.simps [simp del] restoreWindow.simps [simp del] openApp.simps [simp del]

subsection \<open>Drag, snap and resize\<close>

text \<open>
  What a pointer handler reads: the event's \<^verbatim>\<open>clientX\<close>/\<^verbatim>\<open>clientY\<close> and the layout
  metrics of the document (\<^verbatim>\<open>targetEl.offsetLeft\<close>, \<^verbatim>\<open>offsetTop\<close>, \<^verbatim>\<open>offsetWidth\<close>,
  \<^verbatim>\<open>offsetHeight\<close>; \<^verbatim>\<open>boundsContainer.clientWidth\<close>, \<^verbatim>\<open>clientHeight\<close>;
  \<^verbatim>\<open>menuBar.offsetHeight\<close>; \<^verbatim>\<open>dock.offsetHeight\<close>; \<^verbatim>\<open>desktop.clientWidth\<close>; the
  \<^verbatim>\<open>parseInt\<close> of the computed width and height).
\<close>

record pointer_env =
  clientX :: real
  clientY :: real
  offsetLeft :: real
  offsetTop :: real
  offsetWidth :: real
  offsetHeight :: real
  containerWidth :: real
  containerHeight :: real
  menuBarHeight :: real
  dockOffsetHeight :: real
  desktopWidth :: real
  computedWidth :: real
  computedHeight :: real

text \<open>
  \<^verbatim>\<open>makeDraggable\<close>, the \<^verbatim>\<open>onmousedown\<close> of a window's title bar (lines 422-456) for
  the window whose \<^verbatim>\<open>dataset.id\<close> is \<open>k\<close>.
\<close>

definition dragMouseDown :: "string \<Rightarrow> pointer_env \<Rightarrow> state \<Rightarrow> state" where
  "dragMouseDown k p s =
     (let windowData = getWindow s k;
          s1 = (if windowData \<noteq> None \<and> Some k \<noteq> activeWindowId s
                then focusWindow (Some k) s else s)
      in if (case windowData of None \<Rightarrow> False | Some w \<Rightarrow> isMaximized w) then s1
         else s1\<lparr>pointerSession :=
                   DragSession k (clientX p - offsetLeft p) (clientY p - offsetTop p)\<rparr>)"

text \<open>
  The clamped top-left corner of lines 458-479; \<open>isWindow\<close> tells a window from a
  desktop icon.
\<close>

definition dragPosition :: "bool \<Rightarrow> bool \<Rightarrow> real \<Rightarrow> real \<Rightarrow> pointer_env \<Rightarrow> real \<times> real" where
  "dragPosition isWindow dockVisible offsetX offsetY p =
     (let newX = clientX p - offsetX;
          newY = clientY p - offsetY;
          dockHeight = (if dockVisible then dockOffsetHeight p + 10 else 0);
          minX = 0;
          minY = (if isWindow then menuBarHeight p else 0);
          maxX = containerWidth p - offsetWidth p;
          maxY = (if isWindow then containerHeight p - offsetHeight p - dockHeight
                  else containerHeight p - offsetHeight p)
      in (max minX (min newX maxX), max minY (min newY maxY)))"

text \<open>
  \<^verbatim>\<open>showSnapIndicator\<close>, lines 542-571: the registry effect is line 552. The indicator
  element exists during every window drag (lines 450-454).
\<close>

definition showSnapIndicator :: "snap_position \<Rightarrow> state \<Rightarrow> state" where
  "showSnapIndicator position s =
     (case activeWindowId s of
        None \<Rightarrow> s
      | Some a \<Rightarrow> if a = [] then s else modifyWindow a (\<lambda>w. w\<lparr>isSnapping := Some position\<rparr>) s)"

text \<open>The \<^verbatim>\<open>document.onmousemove\<close> of a window drag, lines 457-514.\<close>

definition dragMouseMove :: "string \<Rightarrow> real \<Rightarrow> real \<Rightarrow> pointer_env \<Rightarrow> state \<Rightarrow> state" where
  "dragMouseMove k offsetX offsetY p s =
     (let (newX, newY) = dragPosition True (isDockVisible s) offsetX offsetY p;
          s1 = modifyWindow k
                 (\<lambda>w. w\<lparr>style := (style w)\<lparr>style_left := Px newX, style_top := Px newY\<rparr>\<rparr>) s;
          snapThreshold = 20
      in if clientX p < snapThreshold then showSnapIndicator SnapLeft s1
         else if clientX p > desktopWidth p - snapThreshold then showSnapIndicator SnapRight s1
         else if clientY p < menuBarHeight p + snapThreshold then showSnapIndicator SnapTop s1
         else modifyWindow k (\<lambda>w. w\<lparr>isSnapping := None\<rparr>) s1)"

text \<open>The rectangle \<^verbatim>\<open>applySnap\<close> writes for an edge, lines 576-602.\<close>

definition snapGeometry :: "snap_position \<Rightarrow> bool \<Rightarrow> geometry" where
  "snapGeometry position dockVisible =
     (let menuBarHeight = 28;
          dockTotalHeight = (if dockVisible then 70 else 0)
      in case position of
           SnapLeft \<Rightarrow>
             \<lparr>style_top = Px (menuBarHeight + 2), style_left = Px 2,
              style_width = CalcVw 50 (- 4),
              style_height = CalcVh 100 (- (menuBarHeight + dockTotalHeight + 4))\<rparr>
         | SnapRight \<Rightarrow>
             \<lparr>style_top = Px (menuBarHeight + 2), style_left = CalcVw 50 2,
              style_width = CalcVw 50 (- 4),
              style_height = CalcVh 100 (- (menuBarHeight + dockTotalHeight + 4))\<rparr>
         | SnapTop \<Rightarrow>
             \<lparr>style_top = Px (menuBarHeight + 2), style_left = Px 2,
              style_width = CalcVw 100 (- 4),
              style_height = CalcVh 50 (- (menuBarHeight / 2 + dockTotalHeight / 2 + 2))\<rparr>)"

text \<open>\<^verbatim>\<open>applySnap(windowData)\<close>, lines 573-606, for the record stored under \<open>k\<close>.\<close>

definition applySnap :: "string \<Rightarrow> state \<Rightarrow> state" where
  "applySnap k s =
     (case getWindow s k of
        None \<Rightarrow> s
      | Some windowData \<Rightarrow>
          (case isSnapping windowData of
             None \<Rightarrow> s
           | Some position \<Rightarrow>
               modifyWindow k
                 (\<lambda>w. w\<lparr>isMaximized := False,
                         style := snapGeometry position (isDockVisible s),
                         isSnapping := None\<rparr>) s))"

text \<open>The \<^verbatim>\<open>document.onmouseup\<close> of a window drag, lines 516-538.\<close>

definition dragMouseUp :: "string \<Rightarrow> state \<Rightarrow> state" where
  "dragMouseUp k s =
     (let s1 = s\<lparr>pointerSession := NoSession\<rparr>
      in case getWindow s1 k of
           None \<Rightarrow> s1
         | Some windowData \<Rightarrow> if isSnapping windowData \<noteq> None then applySnap k s1 else s1)"

text \<open>\<^verbatim>\<open>makeResizable\<close>, lines 609-634: mouse down on the handle, move, release.\<close>

definition resizeMouseDown :: "string \<Rightarrow> pointer_env \<Rightarrow> state \<Rightarrow> state" where
  "resizeMouseDown k p s =
     (if (case getWindow s k of
            None \<Rightarrow> False
          | Some windowData \<Rightarrow> isMaximized windowData \<or> isSnapping windowData \<noteq> None)
      then s
      else s\<lparr>pointerSession :=
               ResizeSession k (clientX p) (clientY p) (computedWidth p) (computedHeight p)\<rparr>)"

definition resizeMouseMove ::
  "string \<Rightarrow> real \<Rightarrow> real \<Rightarrow> real \<Rightarrow> real \<Rightarrow> pointer_env \<Rightarrow> state \<Rightarrow> state" where
  "resizeMouseMove k startX startY startWidth startHeight p s =
     (let newWidth = startWidth + (clientX p - startX);
          newHeight = startHeight + (clientY p - startY)
      in modifyWindow k
           (\<lambda>w. w\<lparr>style := (style w)\<lparr>style_width := Px (max 300 newWidth),
                                      style_height := Px (max 200 newHeight)\<rparr>\<rparr>) s)"

definition resizeMouseUp :: "state \<Rightarrow> state" where
  "resizeMouseUp s = s\<lparr>pointerSession := NoSession\<rparr>"

text \<open>Whatever handler is installed on the document runs.\<close>

definition documentMouseMove :: "pointer_env \<Rightarrow> state \<Rightarrow> state" where
  "documentMouseMove p s =
     (case pointerSession s of
        NoSession \<Rightarrow> s
      | DragSession k offsetX offsetY \<Rightarrow> dragMouseMove k offsetX offsetY p s
      | ResizeSession k startX startY startWidth startHeight \<Rightarrow>
          resizeMouseMove k startX startY startWidth startHeight p s)"

definition documentMouseUp :: "state \<Rightarrow> state" where
  "documentMouseUp s =
     (case pointerSession s of
        NoSession \<Rightarrow> s
      | DragSession k offsetX offsetY \<Rightarrow> dragMouseUp k s
      | ResizeSession k startX startY startWidth startHeight \<Rightarrow> resizeMouseUp s)"

subsection \<open>Operations over every window\<close>

text \<open>\<^verbatim>\<open>toggleDockVisibility\<close>, lines 932-950.\<close>

definition redockWindow :: "string \<Rightarrow> state \<Rightarrow> state" where
  "redockWindow k s =
     (case getWindow s k of
        None \<Rightarrow> s
      | Some win \<Rightarrow>
          if isOpen win \<and> (isMaximized win \<or> isSnapping win \<noteq> None) then
            (let s1 = (if isMaximized win
                       then toggleMaximizeWindow k (toggleMaximizeWindow k s) else s)
             in if isSnapping win \<noteq> None then applySnap k s1 else s1)
          else s)"

definition toggleDockVisibility :: "state \<Rightarrow> state" where
  "toggleDockVisibility s =
     (let s1 = s\<lparr>isDockVisible := \<not> isDockVisible s\<rparr>
      in fold redockWindow (map fst (entries s1)) s1)"

text \<open>The menu action \<^verbatim>\<open>minimize-all\<close>, line 1527.\<close>

definition minimizeIfShown :: "string \<Rightarrow> state \<Rightarrow> state" where
  "minimizeIfShown k s =
     (case getWindow s k of
        None \<Rightarrow> s
      | Some win \<Rightarrow> if \<not> isMinimized win \<and> isOpen win then minimizeWindow k s else s)"

definition minimizeAll :: "state \<Rightarrow> state" where
  "minimizeAll s = fold minimizeIfShown (map fst (entries s)) s"

subsection \<open>Events\<close>

text \<open>
  \<^verbatim>\<open>activeWindow\<close> as the menu and keyboard handlers compute it (lines 1476, 1680):
  the entry that \<^verbatim>\<open>state.activeWindowId\<close> names, if any.
\<close>

definition activeWindow :: "state \<Rightarrow> (string \<times> AppWindow) option" where
  "activeWindow s =
     (case activeWindowId s of
        None \<Rightarrow> None
      | Some a \<Rightarrow> if a = [] then None else map_option (Pair a) (getWindow s a))"

definition menuZoomActive :: "state \<Rightarrow> state" where
  "menuZoomActive s =
     (case activeWindow s of None \<Rightarrow> s | Some (a, win) \<Rightarrow> toggleMaximizeWindow a s)"

definition menuCloseActive :: "state \<Rightarrow> state" where
  "menuCloseActive s =
     (case activeWindow s of None \<Rightarrow> s | Some (a, win) \<Rightarrow> closeWindow a s)"

text \<open>The shortcuts Ctrl/Cmd+Q and Ctrl/Cmd+M, lines 1679-1685.\<close>

definition keyQuit :: "state \<Rightarrow> state" where
  "keyQuit s =
     (case activeWindow s of
        None \<Rightarrow> s
      | Some (a, win) \<Rightarrow> if isMinimized win then s else closeWindow a s)"

definition keyMinimize :: "state \<Rightarrow> state" where
  "keyMinimize s =
     (case activeWindow s of
        None \<Rightarrow> s
      | Some (a, win) \<Rightarrow> if isMinimized win then s else minimizeWindow a s)"

text \<open>The two direct callers of \<^verbatim>\<open>createWindow\<close>: lines 153-157 and 665-678.\<close>

definition apiKeyErrorOptions :: options where
  "apiKeyErrorOptions = \<lparr>opt_baseAppId = ''ErrorApiKey'', opt_x = 100, opt_y = 100,
     opt_width = Some (Px 350), opt_height = Some (Px 180)\<rparr>"

definition trashOptions :: "real \<Rightarrow> real \<Rightarrow> options" where
  "trashOptions innerWidth innerHeight =
     \<lparr>opt_baseAppId = ''TrashMessage'', opt_x = innerWidth / 2 - 150,
      opt_y = innerHeight / 2 - 90, opt_width = Some (Px 300), opt_height = Some (Px 180)\<rparr>"

text \<open>
  Everything that reaches the registry: the callers of \<^verbatim>\<open>openApp\<close> (dock, menus,
  Spotlight, desktop icons, terminal), the two direct creations, pointer events on a
  window (the capturing \<^verbatim>\<open>mousedown\<close> listener of line 278 runs before the handler of
  the title bar or of the resize handle), the three window controls, the menu actions of
  lines 1526-1531, the two shortcuts, and the close timer.
\<close>

datatype event =
    OpenApp string creation_env
  | ShowApiKeyError creation_env
  | TrashClick real real creation_env
  | WindowMouseDown string
  | TitleBarMouseDown string pointer_env
  | ResizeHandleMouseDown string pointer_env
  | DocumentMouseMove pointer_env
  | DocumentMouseUp
  | CloseClick string
  | MinimizeClick string
  | MaximizeClick string
  | MenuZoomActive
  | MenuCloseActive
  | MenuMinimizeAll
  | MenuToggleDock
  | MenuFocusWindow string
  | KeyQuit
  | KeyMinimize
  | CloseTimeout

fun fire :: "event \<Rightarrow> state \<Rightarrow> state" where
  "fire (OpenApp appId e) s = openApp appId e s"
| "fire (ShowApiKeyError e) s = createWindow apiKeyErrorOptions e s"
| "fire (TrashClick innerWidth innerHeight e) s =
     createWindow (trashOptions innerWidth innerHeight) e s"
| "fire (WindowMouseDown k) s = focusWindow (Some k) s"
| "fire (TitleBarMouseDown k p) s = dragMouseDown k p (focusWindow (Some k) s)"
| "fire (ResizeHandleMouseDown k p) s = resizeMouseDown k p (focusWindow (Some k) s)"
| "fire (DocumentMouseMove p) s = documentMouseMove p s"
| "fire DocumentMouseUp s = documentMouseUp s"
| "fire (CloseClick k) s = closeWindow k s"
| "fire (MinimizeClick k) s = minimizeWindow k s"
| "fire (MaximizeClick k) s = toggleMaximizeWindow k s"
| "fire MenuZoomActive s = menuZoomActive s"
| "fire MenuCloseActive s = menuCloseActive s"
| "fire MenuMinimizeAll s = minimizeAll s"
| "fire MenuToggleDock s = toggleDockVisibility s"
| "fire (MenuFocusWindow k) s = focusWindow (Some k) s"
| "fire KeyQuit s = keyQuit s"
| "fire KeyMinimize s = keyMinimize s"
| "fire CloseTimeout s =
     (case closeTimers s of
        [] \<Rightarrow> s
      | k # rest \<Rightarrow> closeWindowTimeout k (s\<lparr>closeTimers := rest\<rparr>))"

text \<open>
  Any event may happen in any state. The listeners sit on the window element and its
  controls unconditionally (lines 278, 414-416, 422, 613); whether a minimized window
  can still be clicked is left to a stylesheet, and an element whose id was registered
  again (\<open>windowId\<close>) stays on screen whatever the record under that id says. An event on
  an id without a record, and the close timer with no pending callback, are covered by
  the handlers themselves.
\<close>

inductive reachable :: "state \<Rightarrow> bool" where
  reachable_init: "reachable initial_state"
| reachable_step: "reachable s \<Longrightarrow> reachable (fire e s)"

section \<open>Invariants of the registry\<close>

text \<open>
  The properties that hold in every reachable state, stated on the look-up
  \<open>getWindow\<close>: every z-index is below the counter and no two records share one; the
  active window exists and carries the last z-index handed out; an application that
  does not allow several instances has at most one record with \<^verbatim>\<open>isOpen\<close>; a maximized
  or minimized record has an \<^verbatim>\<open>originalPosition\<close>; no record is stored under the empty
  id.
\<close>

definition zorder_ok :: "state \<Rightarrow> bool" where
  "zorder_ok s \<longleftrightarrow>
     (\<forall>k w. getWindow s k = Some w \<longrightarrow> zIndex w < nextZIndex s) \<and>
     (\<forall>k j w v. getWindow s k = Some w \<and> getWindow s j = Some v \<and> zIndex w = zIndex v \<longrightarrow> k = j)"

definition focus_ok :: "state \<Rightarrow> bool" where
  "focus_ok s \<longleftrightarrow>
     (\<forall>a. activeWindowId s = Some a \<longrightarrow>
        (\<exists>w. getWindow s a = Some w \<and> zIndex w = nextZIndex s - 1))"

text \<open>
  The application does not allow several instances: the negation of
  \<^verbatim>\<open>appDef?.allowMultipleInstances\<close> (line 227), which also holds for a \<^verbatim>\<open>baseAppId\<close>
  without a definition.
\<close>

definition singleInstance :: "string \<Rightarrow> bool" where
  "singleInstance appId \<longleftrightarrow>
     \<not> (case findAppDef appId of None \<Rightarrow> False | Some a \<Rightarrow> allowMultipleInstances a)"

definition single_ok :: "state \<Rightarrow> bool" where
  "single_ok s \<longleftrightarrow>
     (\<forall>k j w v. getWindow s k = Some w \<and> getWindow s j = Some v \<and> isOpen w \<and> isOpen v
        \<and> baseAppId w = baseAppId v \<and> singleInstance (baseAppId w) \<longrightarrow> k = j)"

definition keys_ok :: "state \<Rightarrow> bool" where
  "keys_ok s \<longleftrightarrow> (\<forall>k w. getWindow s k = Some w \<longrightarrow> k \<noteq> [])"

definition saved :: "AppWindow \<Rightarrow> bool" where
  "saved w \<longleftrightarrow> (isMaximized w \<or> isMinimized w \<longrightarrow> originalPosition w \<noteq> None)"

definition saved_ok :: "state \<Rightarrow> bool" where
  "saved_ok s \<longleftrightarrow> (\<forall>k w. getWindow s k = Some w \<longrightarrow> saved w)"

definition registry_ok :: "state \<Rightarrow> bool" where
  "registry_ok s \<longleftrightarrow>
     zorder_ok s \<and> focus_ok s \<and> single_ok s \<and> saved_ok s \<and> keys_ok s"

text \<open>
  Auxiliary notions of the proofs. A record update is \<open>neutral\<close> when it keeps the
  z-index and the application, does not set \<^verbatim>\<open>isOpen\<close>, and keeps a saved geometry
  where one is needed. \<open>restored\<close> is the first branch of
  \<^verbatim>\<open>restoreWindow\<close> (lines 365-375) and \<open>inserted\<close> the insertion of \<^verbatim>\<open>createWindow\<close>
  (lines 269 and 272), named so that the three creation functions can be stated without
  their recursion. \<open>focusedInstance a s k\<close>: the record under \<open>k\<close> belongs to application
  \<open>a\<close>, is open and not minimized, and is the active window.
\<close>

definition neutral :: "(AppWindow \<Rightarrow> AppWindow) \<Rightarrow> bool" where
  "neutral f \<longleftrightarrow>
     (\<forall>w. zIndex (f w) = zIndex w \<and> baseAppId (f w) = baseAppId w
          \<and> (isOpen (f w) \<longrightarrow> isOpen w)
          \<and> (saved w \<longrightarrow> saved (f w)))"

definition restored :: "string \<Rightarrow> state \<Rightarrow> state" where
  "restored k s = updateWindowMenu (focusWindow (Some k)
              (modifyWindow k
                 (\<lambda>w. w\<lparr>style := (case originalPosition w of Some p \<Rightarrow> p | None \<Rightarrow> style w),
                         isMinimized := False\<rparr>) s))"

definition inserted :: "string \<Rightarrow> AppWindow \<Rightarrow> state \<Rightarrow> state" where
  "inserted k w s = s\<lparr>windows := DAList.update k w (windows s), nextZIndex := nextZIndex s + 1\<rparr>"

definition focusedInstance :: "string \<Rightarrow> state \<Rightarrow> string \<Rightarrow> bool" where
  "focusedInstance a s k \<longleftrightarrow>
     (\<exists>w. getWindow s k = Some w \<and> baseAppId w = a \<and> isOpen w \<and> \<not> isMinimized w)
     \<and> activeWindowId s = Some k"

section \<open>Concrete scenarios\<close>

text \<open>
  States that short event sequences reach from \<open>initial_state\<close>, written out field by
  field; the lemmas \<open>settings_open_eq\<close>, \<open>settings_closing_eq\<close> and so on show that the
  events compute exactly these records. A clock reading \<open>t\<close> stands for \<^verbatim>\<open>Date.now()\<close>,
  both random draws are \<open>0\<close>, the document is 1280 by 800 pixels with a 28 pixel menu bar
  and a 60 pixel dock.
\<close>

definition env_at :: "nat \<Rightarrow> creation_env" where
  "env_at t = \<lparr>now = t, random_x = 0, random_y = 0, templateFound = True\<rparr>"

definition registry :: "(string \<times> AppWindow) list \<Rightarrow> (string, AppWindow) alist" where
  "registry xs = fold (\<lambda>(k, w). DAList.update k w) xs DAList.empty"

definition pointer_at :: "real \<Rightarrow> real \<Rightarrow> real \<Rightarrow> real \<Rightarrow> pointer_env" where
  "pointer_at x y elementWidth elementHeight =
     \<lparr>clientX = x, clientY = y, offsetLeft = 50, offsetTop = 50,
      offsetWidth = elementWidth, offsetHeight = elementHeight,
      containerWidth = 1280, containerHeight = 800, menuBarHeight = 28,
      dockOffsetHeight = 60, desktopWidth = 1280,
      computedWidth = elementWidth, computedHeight = elementHeight\<rparr>"

definition settings_window :: AppWindow where
  "settings_window = \<lparr>baseAppId = ''Settings'', isMinimized = False, isOpen = True,
      zIndex = 101, originalPosition = None, isMaximized = False, isSnapping = None,
      style = \<lparr>style_top = Px 50, style_left = Px 50, style_width = Px 500,
                style_height = Px 480\<rparr>\<rparr>"

definition settings_open :: state where
  "settings_open = \<lparr>windows = registry [(''Settings-5'', settings_window)],
     activeWindowId = Some ''Settings-5'', nextZIndex = 102, isDockVisible = True,
     closeTimers = [], windowMenu = [''Settings-5''], pointerSession = NoSession\<rparr>"

definition settings_closing :: state where
  "settings_closing = \<lparr>windows = registry [(''Settings-5'', settings_window\<lparr>isOpen := False\<rparr>)],
     activeWindowId = Some ''Settings-5'', nextZIndex = 102, isDockVisible = True,
     closeTimers = [''Settings-5''], windowMenu = [''Settings-5''], pointerSession = NoSession\<rparr>"

definition settings_reopened :: state where
  "settings_reopened = \<lparr>windows = registry
        [(''Settings-5'', settings_window\<lparr>isOpen := False\<rparr>),
         (''Settings-6'', settings_window\<lparr>zIndex := 103,
             style := \<lparr>style_top = Px 75, style_left = Px 75, style_width = Px 500,
                        style_height = Px 480\<rparr>\<rparr>)],
     activeWindowId = Some ''Settings-6'', nextZIndex = 104, isDockVisible = True,
     closeTimers = [''Settings-5''], windowMenu = [''Settings-6''], pointerSession = NoSession\<rparr>"

definition settings_snapped :: state where
  "settings_snapped = \<lparr>windows = registry
        [(''Settings-5'', settings_window\<lparr>style := snapGeometry SnapLeft True\<rparr>)],
     activeWindowId = Some ''Settings-5'', nextZIndex = 102, isDockVisible = True,
     closeTimers = [], windowMenu = [''Settings-5''], pointerSession = NoSession\<rparr>"

definition two_windows :: state where
  "two_windows = \<lparr>windows = registry
        [(''Settings-5'', settings_window),
         (''Notepad-6'', \<lparr>baseAppId = ''Notepad'', isMinimized = False, isOpen = True,
            zIndex = 103, originalPosition = None, isMaximized = False, isSnapping = None,
            style = \<lparr>style_top = Px 75, style_left = Px 75, style_width = Unset,
                      style_height = Unset\<rparr>\<rparr>)],
     activeWindowId = Some ''Notepad-6'', nextZIndex = 104, isDockVisible = True,
     closeTimers = [], windowMenu = [''Settings-5'', ''Notepad-6''],
     pointerSession = NoSession\<rparr>"

definition settings_minimized :: state where
  "settings_minimized = \<lparr>windows = registry
        [(''Settings-5'', settings_window\<lparr>isMinimized := True,
            originalPosition := Some (style settings_window)\<rparr>)],
     activeWindowId = None, nextZIndex = 102, isDockVisible = True,
     closeTimers = [], windowMenu = [], pointerSession = NoSession\<rparr>"

definition settings_restored :: state where
  "settings_restored = \<lparr>windows = registry
        [(''Settings-5'', settings_window\<lparr>zIndex := 102,
            originalPosition := Some (style settings_window)\<rparr>)],
     activeWindowId = Some ''Settings-5'', nextZIndex = 103, isDockVisible = True,
     closeTimers = [], windowMenu = [''Settings-5''], pointerSession = NoSession\<rparr>"

definition settings_closing_minimized :: state where
  "settings_closing_minimized = \<lparr>windows = registry
        [(''Settings-5'', settings_window\<lparr>isOpen := False, isMinimized := True,
            originalPosition := Some (style settings_window)\<rparr>)],
     activeWindowId = None, nextZIndex = 102, isDockVisible = True,
     closeTimers = [''Settings-5''], windowMenu = [], pointerSession = NoSession\<rparr>"

definition trash_closing :: state where
  "trash_closing = \<lparr>windows = registry
        [(''TrashMessage-5'', \<lparr>baseAppId = ''TrashMessage'', isMinimized = False,
            isOpen = False, zIndex = 101, originalPosition = None, isMaximized = False,
            isSnapping = None,
            style = \<lparr>style_top = Px 310, style_left = Px 490, style_width = Px 300,
                      style_height = Px 180\<rparr>\<rparr>)],
     activeWindowId = Some ''TrashMessage-5'', nextZIndex = 102, isDockVisible = True,
     closeTimers = [''TrashMessage-5''], windowMenu = [''TrashMessage-5''],
     pointerSession = NoSession\<rparr>"

definition sticky_window :: AppWindow where
  "sticky_window = \<lparr>baseAppId = ''StickyNotes'', isMinimized = False, isOpen = True,
      zIndex = 101, originalPosition = None, isMaximized = False, isSnapping = None,
      style = \<lparr>style_top = Px 50, style_left = Px 50, style_width = Px 250,
                style_height = Px 250\<rparr>\<rparr>"

definition sticky_open :: state where
  "sticky_open = \<lparr>windows = registry [(''StickyNotes-5'', sticky_window)],
     activeWindowId = Some ''StickyNotes-5'', nextZIndex = 102, isDockVisible = True,
     closeTimers = [], windowMenu = [''StickyNotes-5''], pointerSession = NoSession\<rparr>"

section \<open>Lemmas\<close>

subsection \<open>Registry look-up after a mutation\<close>

lemma getWindow_modifyWindow:
  "getWindow (modifyWindow k f s) j = (if j = k then map_option f (getWindow s k) else getWindow s j)"
  unfolding getWindow_def modifyWindow_def
  by (simp add: DAList.lookup.rep_eq DAList.map_entry.rep_eq map_of_map_entry split: option.split)

subsection \<open>Invariants under record updates\<close>

lemma getWindow_fields [simp]:
  "getWindow (s\<lparr>activeWindowId := a\<rparr>) = getWindow s"
  "getWindow (s\<lparr>nextZIndex := z\<rparr>) = getWindow s"
  "getWindow (s\<lparr>isDockVisible := b\<rparr>) = getWindow s"
  "getWindow (s\<lparr>closeTimers := ts\<rparr>) = getWindow s"
  "getWindow (s\<lparr>windowMenu := m\<rparr>) = getWindow s"
  "getWindow (s\<lparr>pointerSession := p\<rparr>) = getWindow s"
  by (simp_all add: getWindow_def fun_eq_iff)

lemma getWindow_update [simp]:
  "getWindow (s\<lparr>windows := DAList.update k v (windows s)\<rparr>) j = (if j = k then Some v else getWindow s j)"
  by (simp add: getWindow_def DAList.lookup_update)

lemma getWindow_delete [simp]:
  "getWindow (s\<lparr>windows := DAList.delete k (windows s)\<rparr>) j = (if j = k then None else getWindow s j)"
  by (simp add: getWindow_def)

lemma modifyWindow_fields [simp]:
  "activeWindowId (modifyWindow k f s) = activeWindowId s"
  "nextZIndex (modifyWindow k f s) = nextZIndex s"
  "isDockVisible (modifyWindow k f s) = isDockVisible s"
  "closeTimers (modifyWindow k f s) = closeTimers s"
  "windowMenu (modifyWindow k f s) = windowMenu s"
  "pointerSession (modifyWindow k f s) = pointerSession s"
  by (simp_all add: modifyWindow_def)

lemma updateWindowMenu_fields [simp]:
  "getWindow (updateWindowMenu s) = getWindow s"
  "activeWindowId (updateWindowMenu s) = activeWindowId s"
  "nextZIndex (updateWindowMenu s) = nextZIndex s"
  "isDockVisible (updateWindowMenu s) = isDockVisible s"
  "closeTimers (updateWindowMenu s) = closeTimers s"
  "pointerSession (updateWindowMenu s) = pointerSession s"
  "windows (updateWindowMenu s) = windows s"
  by (simp_all add: updateWindowMenu_def)

lemmas oks = zorder_ok_def focus_ok_def single_ok_def saved_ok_def keys_ok_def

lemma ok_fields [simp]:
  "zorder_ok (s\<lparr>isDockVisible := b\<rparr>) = zorder_ok s"
  "zorder_ok (s\<lparr>closeTimers := ts\<rparr>) = zorder_ok s"
  "zorder_ok (s\<lparr>pointerSession := p\<rparr>) = zorder_ok s"
  "zorder_ok (s\<lparr>windowMenu := m\<rparr>) = zorder_ok s"
  "zorder_ok (s\<lparr>activeWindowId := a\<rparr>) = zorder_ok s"
  "focus_ok (s\<lparr>isDockVisible := b\<rparr>) = focus_ok s"
  "focus_ok (s\<lparr>closeTimers := ts\<rparr>) = focus_ok s"
  "focus_ok (s\<lparr>pointerSession := p\<rparr>) = focus_ok s"
  "focus_ok (s\<lparr>windowMenu := m\<rparr>) = focus_ok s"
  "focus_ok (s\<lparr>activeWindowId := None\<rparr>)"
  "single_ok (s\<lparr>isDockVisible := b\<rparr>) = single_ok s"
  "single_ok (s\<lparr>closeTimers := ts\<rparr>) = single_ok s"
  "single_ok (s\<lparr>pointerSession := p\<rparr>) = single_ok s"
  "single_ok (s\<lparr>windowMenu := m\<rparr>) = single_ok s"
  "single_ok (s\<lparr>activeWindowId := a\<rparr>) = single_ok s"
  "single_ok (s\<lparr>nextZIndex := z\<rparr>) = single_ok s"
  "saved_ok (s\<lparr>isDockVisible := b\<rparr>) = saved_ok s"
  "saved_ok (s\<lparr>closeTimers := ts\<rparr>) = saved_ok s"
  "saved_ok (s\<lparr>pointerSession := p\<rparr>) = saved_ok s"
  "saved_ok (s\<lparr>windowMenu := m\<rparr>) = saved_ok s"
  "saved_ok (s\<lparr>activeWindowId := a\<rparr>) = saved_ok s"
  "saved_ok (s\<lparr>nextZIndex := z\<rparr>) = saved_ok s"
  "keys_ok (s\<lparr>isDockVisible := b\<rparr>) = keys_ok s"
  "keys_ok (s\<lparr>closeTimers := ts\<rparr>) = keys_ok s"
  "keys_ok (s\<lparr>pointerSession := p\<rparr>) = keys_ok s"
  "keys_ok (s\<lparr>windowMenu := m\<rparr>) = keys_ok s"
  "keys_ok (s\<lparr>activeWindowId := a\<rparr>) = keys_ok s"
  "keys_ok (s\<lparr>nextZIndex := z\<rparr>) = keys_ok s"
  by (simp_all add: oks)

lemma registry_ok_fields [simp]:
  "registry_ok (s\<lparr>isDockVisible := b\<rparr>) = registry_ok s"
  "registry_ok (s\<lparr>closeTimers := ts\<rparr>) = registry_ok s"
  "registry_ok (s\<lparr>pointerSession := p\<rparr>) = registry_ok s"
  by (simp_all add: registry_ok_def)

lemma oks_updateWindowMenu [simp]:
  "zorder_ok (updateWindowMenu s) = zorder_ok s"
  "focus_ok (updateWindowMenu s) = focus_ok s"
  "single_ok (updateWindowMenu s) = single_ok s"
  "saved_ok (updateWindowMenu s) = saved_ok s"
  "keys_ok (updateWindowMenu s) = keys_ok s"
  by (simp_all add: oks)

lemma registry_ok_updateWindowMenu:
  assumes "registry_ok s" shows "registry_ok (updateWindowMenu s)"
  using assms unfolding registry_ok_def by simp

lemma getWindow_modifyWindow_Some:
  assumes "getWindow (modifyWindow k f s) j = Some w'"
  obtains w where "getWindow s j = Some w" "w' = w \<or> w' = f w"
  using assms by (auto simp: getWindow_modifyWindow split: if_splits)

lemma zorder_ok_modifyWindow:
  assumes "zorder_ok s" "\<forall>w. zIndex (f w) = zIndex w" shows "zorder_ok (modifyWindow k f s)"
  unfolding zorder_ok_def
proof (intro conjI allI impI)
  fix j w' assume "getWindow (modifyWindow k f s) j = Some w'"
  then obtain w where "getWindow s j = Some w" "zIndex w' = zIndex w"
    using assms(2) by (auto elim!: getWindow_modifyWindow_Some)
  with assms(1) show "zIndex w' < nextZIndex (modifyWindow k f s)"
    by (simp add: zorder_ok_def)
next
  fix i j w' v'
  assume a: "getWindow (modifyWindow k f s) i = Some w' \<and> getWindow (modifyWindow k f s) j = Some v'
      \<and> zIndex w' = zIndex v'"
  from a obtain w where w: "getWindow s i = Some w" "zIndex w' = zIndex w"
    using assms(2) by (auto elim!: getWindow_modifyWindow_Some)
  from a obtain v where v: "getWindow s j = Some v" "zIndex v' = zIndex v"
    using assms(2) by (auto elim!: getWindow_modifyWindow_Some)
  from assms(1) w v a show "i = j" unfolding zorder_ok_def by metis
qed

lemma focus_ok_modifyWindow:
  assumes "focus_ok s" "\<forall>w. zIndex (f w) = zIndex w"
  shows "focus_ok (modifyWindow k f s)"
  using assms unfolding focus_ok_def
  by (auto simp: getWindow_modifyWindow)

lemma single_ok_modifyWindow:
  assumes "single_ok s" "\<forall>w. baseAppId (f w) = baseAppId w" "\<forall>w. isOpen (f w) \<longrightarrow> isOpen w"
  shows "single_ok (modifyWindow k f s)"
  unfolding single_ok_def
proof (intro allI impI)
  fix i j w' v'
  assume a: "getWindow (modifyWindow k f s) i = Some w' \<and> getWindow (modifyWindow k f s) j = Some v'
      \<and> isOpen w' \<and> isOpen v' \<and> baseAppId w' = baseAppId v' \<and> singleInstance (baseAppId w')"
  from a obtain w where w: "getWindow s i = Some w" "baseAppId w' = baseAppId w" "isOpen w"
    using assms(2,3) by (auto elim!: getWindow_modifyWindow_Some)
  from a obtain v where v: "getWindow s j = Some v" "baseAppId v' = baseAppId v" "isOpen v"
    using assms(2,3) by (auto elim!: getWindow_modifyWindow_Some)
  from a w(2) v(2) have "baseAppId w = baseAppId v" "singleInstance (baseAppId w)" by metis+
  with assms(1) w v show "i = j" unfolding single_ok_def by blast
qed

lemma saved_ok_modifyWindow:
  assumes "saved_ok s" "\<forall>w. saved w \<longrightarrow> saved (f w)" shows "saved_ok (modifyWindow k f s)"
  unfolding saved_ok_def
proof (intro allI impI)
  fix j w'
  assume "getWindow (modifyWindow k f s) j = Some w'"
  then obtain w where w: "getWindow s j = Some w" "w' = w \<or> w' = f w"
    by (rule getWindow_modifyWindow_Some)
  from assms(1) w(1) have "saved w" unfolding saved_ok_def by blast
  with w(2) assms(2) show "saved w'" by blast
qed

lemma keys_ok_modifyWindow:
  assumes "keys_ok s" shows "keys_ok (modifyWindow k f s)"
  using assms unfolding keys_ok_def
  by (auto simp: getWindow_modifyWindow split: if_splits)

lemma registry_ok_modifyWindow:
  assumes "registry_ok s" "neutral f" shows "registry_ok (modifyWindow k f s)"
  using assms unfolding registry_ok_def neutral_def
  by (simp add: zorder_ok_modifyWindow focus_ok_modifyWindow
      single_ok_modifyWindow saved_ok_modifyWindow keys_ok_modifyWindow)

subsection \<open>focusWindow\<close>

lemma focusWindow_None [simp]: "focusWindow None s = s\<lparr>activeWindowId := None\<rparr>"
  by (simp add: focusWindow_def)

lemma focusWindow_Some:
  "focusWindow (Some k) s =
     (if k = [] \<or> getWindow s k = None then s\<lparr>activeWindowId := None\<rparr>
      else if activeWindowId s = Some k \<and> zIndex (the (getWindow s k)) = nextZIndex s - 1
              \<and> \<not> isMinimized (the (getWindow s k)) then s
      else modifyWindow k (\<lambda>w. w\<lparr>zIndex := nextZIndex s\<rparr>)
          (s\<lparr>activeWindowId := Some k, nextZIndex := nextZIndex s + 1\<rparr>))"
  by (simp add: focusWindow_def split: option.split)

lemma focusWindow_cases:
  obtains (clear) "focusWindow (Some k) s = s\<lparr>activeWindowId := None\<rparr>"
      "k = [] \<or> getWindow s k = None"
  | (same) w where "focusWindow (Some k) s = s" "getWindow s k = Some w"
      "activeWindowId s = Some k" "zIndex w = nextZIndex s - 1" "\<not> isMinimized w"
  | (bump) w where "focusWindow (Some k) s =
        modifyWindow k (\<lambda>w. w\<lparr>zIndex := nextZIndex s\<rparr>)
          (s\<lparr>activeWindowId := Some k, nextZIndex := nextZIndex s + 1\<rparr>)"
      "getWindow s k = Some w"
proof (cases "k = [] \<or> getWindow s k = None")
  case True
  then show ?thesis using clear by (simp add: focusWindow_Some)
next
  case False
  then obtain w where w: "getWindow s k = Some w" by blast
  show ?thesis
  proof (cases "activeWindowId s = Some k \<and> zIndex w = nextZIndex s - 1 \<and> \<not> isMinimized w")
    case True
    with False w show ?thesis using same[of w] by (simp add: focusWindow_Some)
  next
    case c: False
    have "focusWindow (Some k) s = modifyWindow k (\<lambda>w. w\<lparr>zIndex := nextZIndex s\<rparr>)
          (s\<lparr>activeWindowId := Some k, nextZIndex := nextZIndex s + 1\<rparr>)"
      using False w c by (auto simp add: focusWindow_Some)
    then show ?thesis using bump[of w] w by blast
  qed
qed

lemma zorder_ok_bump:
  assumes "zorder_ok s"
  shows "zorder_ok (modifyWindow k (\<lambda>w. w\<lparr>zIndex := nextZIndex s\<rparr>)
          (s\<lparr>activeWindowId := a, nextZIndex := nextZIndex s + 1\<rparr>))"
  unfolding zorder_ok_def
proof (intro conjI allI impI)
  fix j w' assume "getWindow (modifyWindow k (\<lambda>w. w\<lparr>zIndex := nextZIndex s\<rparr>)
          (s\<lparr>activeWindowId := a, nextZIndex := nextZIndex s + 1\<rparr>)) j = Some w'"
  then obtain w where "getWindow s j = Some w" "zIndex w' = zIndex w \<or> zIndex w' = nextZIndex s"
    by (auto elim!: getWindow_modifyWindow_Some)
  with assms show "zIndex w' < nextZIndex (modifyWindow k (\<lambda>w. w\<lparr>zIndex := nextZIndex s\<rparr>)
          (s\<lparr>activeWindowId := a, nextZIndex := nextZIndex s + 1\<rparr>))"
    by (auto simp: zorder_ok_def dest: spec[where x=j])
next
  fix i j w' v'
  let ?s' = "modifyWindow k (\<lambda>w. w\<lparr>zIndex := nextZIndex s\<rparr>)
          (s\<lparr>activeWindowId := a, nextZIndex := nextZIndex s + 1\<rparr>)"
  assume a: "getWindow ?s' i = Some w' \<and> getWindow ?s' j = Some v' \<and> zIndex w' = zIndex v'"
  show "i = j"
  proof (rule ccontr)
    assume ne: "i \<noteq> j"
    from a obtain w where w: "getWindow s i = Some w" "zIndex w' = (if i = k then nextZIndex s else zIndex w)"
      by (auto simp: getWindow_modifyWindow split: if_splits)
    from a obtain v where v: "getWindow s j = Some v" "zIndex v' = (if j = k then nextZIndex s else zIndex v)"
      by (auto simp: getWindow_modifyWindow split: if_splits)
    from assms w(1) v(1) have lt: "zIndex w < nextZIndex s" "zIndex v < nextZIndex s"
      unfolding zorder_ok_def by blast+
    from assms w(1) v(1) ne have "zIndex w \<noteq> zIndex v" unfolding zorder_ok_def by blast
    with w(2) v(2) a lt ne show False by (auto split: if_splits)
  qed
qed

lemma zorder_ok_focusWindow:
  assumes "zorder_ok s" shows "zorder_ok (focusWindow i s)"
proof (cases i)
  case None then show ?thesis using assms by simp
next
  case (Some k)
  show ?thesis unfolding Some
    by (cases rule: focusWindow_cases[of k s]) (use assms in \<open>simp_all add: zorder_ok_bump\<close>)
qed

lemma focus_ok_focusWindow: "focus_ok (focusWindow i s)"
proof (cases i)
  case None then show ?thesis by simp
next
  case (Some k)
  have "focus_ok (focusWindow (Some k) s)"
  proof (cases rule: focusWindow_cases[of k s])
    case clear then show ?thesis by simp
  next
    case (same w) then show ?thesis by (simp add: focus_ok_def)
  next
    case (bump w)
    then show ?thesis by (simp add: focus_ok_def getWindow_modifyWindow)
  qed
  then show ?thesis unfolding Some .
qed

lemma records_ok_focusWindow:
  "single_ok s \<Longrightarrow> single_ok (focusWindow i s)"
  "saved_ok s \<Longrightarrow> saved_ok (focusWindow i s)"
  "keys_ok s \<Longrightarrow> keys_ok (focusWindow i s)"
proof -
  { fix k
    have "single_ok s \<Longrightarrow> single_ok (focusWindow (Some k) s)"
      by (cases rule: focusWindow_cases[of k s]) (simp_all add: single_ok_modifyWindow)
    moreover have "saved_ok s \<Longrightarrow> saved_ok (focusWindow (Some k) s)"
      by (cases rule: focusWindow_cases[of k s]) (simp_all add: saved_ok_modifyWindow saved_def)
    moreover have "keys_ok s \<Longrightarrow> keys_ok (focusWindow (Some k) s)"
      by (cases rule: focusWindow_cases[of k s]) (simp_all add: keys_ok_modifyWindow)
    ultimately have "(single_ok s \<longrightarrow> single_ok (focusWindow (Some k) s))
      \<and> (saved_ok s \<longrightarrow> saved_ok (focusWindow (Some k) s))
      \<and> (keys_ok s \<longrightarrow> keys_ok (focusWindow (Some k) s))" by blast }
  then show "single_ok s \<Longrightarrow> single_ok (focusWindow i s)"
  "saved_ok s \<Longrightarrow> saved_ok (focusWindow i s)"
  "keys_ok s \<Longrightarrow> keys_ok (focusWindow i s)"
    by (cases i; simp)+
qed

lemma registry_ok_focusWindow:
  assumes "registry_ok s" shows "registry_ok (focusWindow i s)"
  using assms unfolding registry_ok_def
  by (simp add: zorder_ok_focusWindow focus_ok_focusWindow records_ok_focusWindow)

lemma getWindow_focusWindow:
  "getWindow (focusWindow i s) j = None \<longleftrightarrow> getWindow s j = None"
  "getWindow (focusWindow i s) j = Some w' \<Longrightarrow>
     \<exists>w. getWindow s j = Some w \<and> w' = w\<lparr>zIndex := zIndex w'\<rparr>"
proof -
  show "getWindow (focusWindow i s) j = None \<longleftrightarrow> getWindow s j = None"
  proof (cases i)
    case None then show ?thesis by simp
  next
    case (Some k) show ?thesis unfolding Some
      by (cases rule: focusWindow_cases[of k s]) (auto simp: getWindow_modifyWindow)
  qed
  assume a: "getWindow (focusWindow i s) j = Some w'"
  show "\<exists>w. getWindow s j = Some w \<and> w' = w\<lparr>zIndex := zIndex w'\<rparr>"
  proof (cases i)
    case None then show ?thesis using a by simp
  next
    case (Some k) show ?thesis using a unfolding Some
      by (cases rule: focusWindow_cases[of k s]) (auto simp: getWindow_modifyWindow split: if_splits)
  qed
qed

subsection \<open>Operations that keep the invariants\<close>

lemma neutral_simps [simp]:
  "neutral (\<lambda>w. w\<lparr>isOpen := False\<rparr>)"
  "neutral (\<lambda>w. w\<lparr>isSnapping := x\<rparr>)"
  "neutral (\<lambda>w. w\<lparr>style := g w\<rparr>)"
  "neutral (\<lambda>w. w\<lparr>style := g w, isMaximized := False\<rparr>)"
  "neutral (\<lambda>w. w\<lparr>originalPosition := Some (g w), isMaximized := True\<rparr>)"
  "neutral (\<lambda>w. w\<lparr>isMaximized := False, style := g w, isSnapping := None\<rparr>)"
  by (simp_all add: neutral_def saved_def)

lemma registry_ok_closeWindow:
  assumes "registry_ok s" shows "registry_ok (closeWindow k s)"
  using assms by (simp add: closeWindow_def registry_ok_modifyWindow split: option.split)

lemma registry_ok_toggleMaximizeWindow:
  assumes "registry_ok s" shows "registry_ok (toggleMaximizeWindow k s)"
  using assms by (simp add: toggleMaximizeWindow_def registry_ok_modifyWindow split: option.split)

lemma registry_ok_applySnap:
  assumes "registry_ok s" shows "registry_ok (applySnap k s)"
  using assms by (simp add: applySnap_def registry_ok_modifyWindow split: option.split)

lemma registry_ok_showSnapIndicator:
  assumes "registry_ok s" shows "registry_ok (showSnapIndicator x s)"
  using assms by (simp add: showSnapIndicator_def registry_ok_modifyWindow split: option.split)

lemma registry_ok_dragMouseMove:
  assumes "registry_ok s" shows "registry_ok (dragMouseMove k ox oy p s)"
  using assms
  by (simp add: dragMouseMove_def Let_def registry_ok_modifyWindow registry_ok_showSnapIndicator
      split: prod.split)

lemma registry_ok_dragMouseUp:
  assumes "registry_ok s" shows "registry_ok (dragMouseUp k s)"
  using assms by (simp add: dragMouseUp_def Let_def registry_ok_applySnap split: option.split)

lemma registry_ok_resizeMouseDown:
  assumes "registry_ok s" shows "registry_ok (resizeMouseDown k p s)"
  using assms by (simp add: resizeMouseDown_def)

lemma registry_ok_resizeMouseMove:
  assumes "registry_ok s" shows "registry_ok (resizeMouseMove k a b c d p s)"
  using assms by (simp add: resizeMouseMove_def Let_def registry_ok_modifyWindow)

lemma registry_ok_documentMouseMove:
  assumes "registry_ok s" shows "registry_ok (documentMouseMove p s)"
  using assms
  by (simp add: documentMouseMove_def registry_ok_dragMouseMove registry_ok_resizeMouseMove
      split: pointer_session.split)

lemma registry_ok_documentMouseUp:
  assumes "registry_ok s" shows "registry_ok (documentMouseUp s)"
  using assms
  by (simp add: documentMouseUp_def registry_ok_dragMouseUp resizeMouseUp_def
      split: pointer_session.split)

lemma registry_ok_fold:
  assumes "\<And>k s. registry_ok s \<Longrightarrow> registry_ok (g k s)" "registry_ok s"
  shows "registry_ok (fold g ks s)"
  using assms(2) by (induction ks arbitrary: s) (simp_all add: assms(1))

lemma registry_ok_toggleDockVisibility:
  assumes "registry_ok s" shows "registry_ok (toggleDockVisibility s)"
proof -
  have "\<And>k s. registry_ok s \<Longrightarrow> registry_ok (redockWindow k s)"
    by (simp add: redockWindow_def Let_def registry_ok_applySnap registry_ok_toggleMaximizeWindow
        split: option.split)
  then show ?thesis using assms
    by (simp add: toggleDockVisibility_def Let_def registry_ok_fold)
qed

subsection \<open>Removal\<close>

lemma registry_ok_closeWindowTimeout:
  assumes "registry_ok s" shows "registry_ok (closeWindowTimeout k s)"
proof -
  let ?s1 = "s\<lparr>windows := DAList.delete k (windows s)\<rparr>"
  have z: "zorder_ok ?s1" using assms unfolding registry_ok_def zorder_ok_def
    by (auto split: if_splits)
  have si: "single_ok ?s1" using assms unfolding registry_ok_def single_ok_def
    by (simp split: if_splits)
  have sa: "saved_ok ?s1" using assms unfolding registry_ok_def saved_ok_def
    by (auto split: if_splits)
  have f: "activeWindowId s \<noteq> Some k \<Longrightarrow> focus_ok ?s1"
    using assms unfolding registry_ok_def focus_ok_def by auto
  have ke: "keys_ok ?s1" using assms unfolding registry_ok_def keys_ok_def
    by (auto split: if_splits)
  show ?thesis
    using z si sa f ke
    by (simp add: closeWindowTimeout_def Let_def registry_ok_def)
qed

subsection \<open>Minimize\<close>

lemma registry_ok_minimizeWindow:
  assumes "registry_ok s" shows "registry_ok (minimizeWindow k s)"
proof (cases "\<exists>w. getWindow s k = Some w \<and> \<not> isMinimized w")
  case False
  then show ?thesis using assms by (auto simp: minimizeWindow_def split: option.split)
next
  case True
  let ?f = "\<lambda>w. w\<lparr>originalPosition := Some (style w), isMaximized := False, isMinimized := True\<rparr>"
  let ?s1 = "modifyWindow k ?f s"
  let ?s2 = "if activeWindowId ?s1 = Some k then focusWindow None ?s1 else ?s1"
  have eq: "minimizeWindow k s = updateWindowMenu ?s2"
    using True by (auto simp: minimizeWindow_def Let_def)
  have z: "zorder_ok ?s1" using assms unfolding registry_ok_def
    by (simp add: zorder_ok_modifyWindow)
  have si: "single_ok ?s1" using assms unfolding registry_ok_def
    by (simp add: single_ok_modifyWindow)
  have sa: "saved_ok ?s1" using assms unfolding registry_ok_def
    by (simp add: saved_ok_modifyWindow saved_def)
  have f: "activeWindowId s \<noteq> Some k \<Longrightarrow> focus_ok ?s1"
    using assms unfolding registry_ok_def focus_ok_def
    by (auto simp: getWindow_modifyWindow)
  have ke: "keys_ok ?s1" using assms unfolding registry_ok_def
    by (simp add: keys_ok_modifyWindow)
  show ?thesis unfolding eq using z si sa f ke
    by (simp add: registry_ok_def)
qed

lemma registry_ok_minimizeAll:
  assumes "registry_ok s" shows "registry_ok (minimizeAll s)"
proof -
  have "\<And>k s. registry_ok s \<Longrightarrow> registry_ok (minimizeIfShown k s)"
    by (simp add: minimizeIfShown_def registry_ok_minimizeWindow split: option.split)
  then show ?thesis using assms by (simp add: minimizeAll_def registry_ok_fold)
qed

subsection \<open>Restoring and inserting a record\<close>

lemma neutral_restore [simp]:
  "neutral (\<lambda>w. w\<lparr>style := g w, isMinimized := False\<rparr>)"
  by (simp add: neutral_def saved_def)

lemma restoreWindow_cases:
  "getWindow s k = None \<Longrightarrow> restoreWindow k e s = s"
  "getWindow s k = Some w \<Longrightarrow> isMinimized w \<Longrightarrow> restoreWindow k e s = restored k s"
  "getWindow s k = Some w \<Longrightarrow> \<not> isMinimized w \<Longrightarrow> \<not> isOpen w \<Longrightarrow>
     restoreWindow k e s = openApp (baseAppId w) e s"
  "getWindow s k = Some w \<Longrightarrow> \<not> isMinimized w \<Longrightarrow> isOpen w \<Longrightarrow>
     restoreWindow k e s = focusWindow (Some k) s"
  by (simp_all add: restoreWindow.simps restored_def)

lemma registry_ok_restored:
  assumes "registry_ok s" shows "registry_ok (restored k s)"
  unfolding restored_def
  by (intro registry_ok_updateWindowMenu registry_ok_focusWindow registry_ok_modifyWindow assms)
     simp

lemma list_ex_sameOpenApp:
  "list_ex (sameOpenApp b) (entries s) \<longleftrightarrow> (\<exists>j v. getWindow s j = Some v \<and> baseAppId v = b \<and> isOpen v)"
  by (auto simp: list_ex_iff sameOpenApp_def entries_getWindow[symmetric])

lemma registry_ok_inserted:
  assumes ok: "registry_ok s"
    and w: "zIndex w = nextZIndex s" "\<not> isMinimized w" "\<not> isMaximized w" "k \<noteq> []"
    and single: "singleInstance (baseAppId w) \<Longrightarrow>
       \<forall>j v. getWindow s j = Some v \<longrightarrow> \<not> (baseAppId v = baseAppId w \<and> isOpen v)"
  shows "registry_ok (updateWindowMenu (focusWindow (Some k) (inserted k w s)))"
proof -
  let ?s1 = "inserted k w s"
  have g: "\<And>j. getWindow ?s1 j = (if j = k then Some w else getWindow s j)"
    by (simp add: inserted_def)
  have n: "nextZIndex ?s1 = nextZIndex s + 1" by (simp add: inserted_def)
  from ok have lt: "\<And>j v. getWindow s j = Some v \<Longrightarrow> zIndex v < nextZIndex s"
    unfolding registry_ok_def zorder_ok_def by blast
  have z: "zorder_ok ?s1"
    unfolding zorder_ok_def
  proof (intro conjI allI impI)
    fix j v assume "getWindow ?s1 j = Some v"
    then show "zIndex v < nextZIndex ?s1" using lt[of j v] w(1) n
      by (auto simp: g split: if_splits)
  next
    fix i j u v assume a: "getWindow ?s1 i = Some u \<and> getWindow ?s1 j = Some v \<and> zIndex u = zIndex v"
    show "i = j"
    proof (rule ccontr)
      assume ne: "i \<noteq> j"
      from ok have uniq: "\<And>u v. getWindow s i = Some u \<Longrightarrow> getWindow s j = Some v \<Longrightarrow> zIndex u \<noteq> zIndex v"
        using ne unfolding registry_ok_def zorder_ok_def by blast
      from a ne show False using lt[of i u] lt[of j v] w(1) uniq[of u v]
        by (auto simp: g split: if_splits)
    qed
  qed
  have sa: "saved_ok ?s1" using ok w(2,3) unfolding registry_ok_def saved_ok_def
    by (auto simp: g saved_def split: if_splits)
  have si: "single_ok ?s1"
    unfolding single_ok_def
  proof (intro allI impI)
    fix i j u v
    assume a: "getWindow ?s1 i = Some u \<and> getWindow ?s1 j = Some v \<and> isOpen u \<and> isOpen v
        \<and> baseAppId u = baseAppId v \<and> singleInstance (baseAppId u)"
    from ok have old: "getWindow s i = Some u \<Longrightarrow> getWindow s j = Some v \<Longrightarrow> i = j"
      using a unfolding registry_ok_def single_ok_def by blast
    show "i = j"
    proof (cases "i = k \<or> j = k")
      case False then show ?thesis using a old by (simp add: g)
    next
      case True
      show ?thesis
      proof (rule ccontr)
        assume ne: "i \<noteq> j"
        with True a have "singleInstance (baseAppId w)"
          by (auto simp: g split: if_splits)
        from single[OF this] True a ne show False
          by (auto simp: g split: if_splits)
      qed
    qed
  qed
  have f: "focus_ok (focusWindow (Some k) ?s1)"
    by (rule focus_ok_focusWindow)
  have ke: "keys_ok ?s1" using ok w(4) unfolding registry_ok_def keys_ok_def
    by (auto simp: g split: if_splits)
  show ?thesis using z sa si f ke
    by (simp add: registry_ok_def zorder_ok_focusWindow records_ok_focusWindow)
qed

subsection \<open>The creation functions without recursion\<close>

lemma createWindow_eq:
  "createWindow opts e s =
     (if findAppDef (opt_baseAppId opts) = None \<and> \<not> isSpecialCase (opt_baseAppId opts) then s
      else if singleInstance (opt_baseAppId opts)
              \<and> list_ex (sameOpenApp (opt_baseAppId opts)) (entries s)
      then (case find (sameOpenApp (opt_baseAppId opts)) (entries s) of
              None \<Rightarrow> s
            | Some (k, w) \<Rightarrow> focusWindow (Some k) (if isMinimized w then restored k s else s))
      else updateWindowMenu (focusWindow (Some (windowId (opt_baseAppId opts) (now e)))
             (inserted (windowId (opt_baseAppId opts) (now e))
                (newWindow opts (findAppDef (opt_baseAppId opts)) (nextZIndex s)) s)))"
  (is "_ = ?rhs")
proof -
  let ?b = "opt_baseAppId opts"
  consider (unknown) "findAppDef ?b = None \<and> \<not> isSpecialCase ?b"
    | (dedup) "\<not> (findAppDef ?b = None \<and> \<not> isSpecialCase ?b)"
        "singleInstance ?b \<and> list_ex (sameOpenApp ?b) (entries s)"
    | (fresh) "\<not> (findAppDef ?b = None \<and> \<not> isSpecialCase ?b)"
        "\<not> (singleInstance ?b \<and> list_ex (sameOpenApp ?b) (entries s))"
    by blast
  then show ?thesis
  proof cases
    case unknown
    then show ?thesis by (simp add: createWindow.simps)
  next
    case dedup
    show ?thesis
    proof (cases "find (sameOpenApp ?b) (entries s)")
      case None
      with dedup show ?thesis
        by (auto simp add: createWindow.simps Let_def singleInstance_def)
    next
      case (Some x)
      obtain k w where x: "x = (k, w)" by (cases x)
      from find_sameOpenApp[OF Some[unfolded x]] have g: "getWindow s k = Some w" by simp
      have r: "isMinimized w \<Longrightarrow> restoreWindow k e s = restored k s"
        using g by (simp add: restoreWindow_cases(2))
      have "createWindow opts e s
          = focusWindow (Some k) (if isMinimized w then restoreWindow k e s else s)"
        using dedup Some x by (auto simp add: createWindow.simps Let_def singleInstance_def)
      also have "\<dots> = focusWindow (Some k) (if isMinimized w then restored k s else s)"
        using r by simp
      also have "\<dots> = ?rhs" using dedup Some x by auto
      finally show ?thesis .
    qed
  next
    case fresh
    then show ?thesis
      by (auto simp add: createWindow.simps Let_def singleInstance_def inserted_def)
  qed
qed

lemma newWindow_fields [simp]:
  "zIndex (newWindow opts d z) = z" "\<not> isMinimized (newWindow opts d z)"
  "\<not> isMaximized (newWindow opts d z)" "isOpen (newWindow opts d z)"
  "baseAppId (newWindow opts d z) = opt_baseAppId opts"
  "originalPosition (newWindow opts d z) = None"
  "isSnapping (newWindow opts d z) = None"
  by (simp_all add: newWindow_def)

lemma windowId_not_Nil [simp]: "windowId b t \<noteq> []"
  by (simp add: windowId_def)

lemma registry_ok_createWindow:
  assumes "registry_ok s" shows "registry_ok (createWindow opts e s)"
proof -
  let ?b = "opt_baseAppId opts"
  have dedup: "registry_ok (focusWindow (Some k) (if isMinimized w then restored k s else s))"
    if "find (sameOpenApp ?b) (entries s) = Some (k, w)" for k w
    by (simp add: registry_ok_focusWindow registry_ok_restored assms)
  have ins: "registry_ok (updateWindowMenu (focusWindow (Some (windowId ?b (now e)))
             (inserted (windowId ?b (now e)) (newWindow opts (findAppDef ?b) (nextZIndex s)) s)))"
    if "\<not> (singleInstance ?b \<and> list_ex (sameOpenApp ?b) (entries s))"
    by (rule registry_ok_inserted[OF assms]) (use that in \<open>auto simp: list_ex_sameOpenApp\<close>)
  show ?thesis
  proof (cases "findAppDef ?b = None \<and> \<not> isSpecialCase ?b")
    case True
    then show ?thesis using assms by (simp add: createWindow_eq)
  next
    case a: False
    show ?thesis
    proof (cases "singleInstance ?b \<and> list_ex (sameOpenApp ?b) (entries s)")
      case False
      with a ins show ?thesis by (auto simp add: createWindow_eq)
    next
      case True
      show ?thesis
      proof (cases "find (sameOpenApp ?b) (entries s)")
        case None
        with a True assms show ?thesis by (auto simp add: createWindow_eq)
      next
        case (Some x)
        obtain k w where x: "x = (k, w)" by (cases x)
        from dedup[OF Some[unfolded x]] a True Some x show ?thesis
          by (auto simp add: createWindow_eq)
      qed
    qed
  qed
qed

lemma filter_sameOpenApp_Nil:
  "filter (sameOpenApp b) (entries s) = [] \<longleftrightarrow> \<not> list_ex (sameOpenApp b) (entries s)"
  by (simp add: filter_empty_conv list_ex_iff)

lemma find_filter_Cons: "filter P xs = x # rest \<Longrightarrow> find P xs = Some x"
  by (induction xs) (auto split: if_splits)

lemma openApp_eq:
  "openApp appId e s =
     (case findAppDef appId of
        None \<Rightarrow> s
      | Some d \<Rightarrow>
          if \<not> isLaunchable d then s
          else if \<not> allowMultipleInstances d \<and> list_ex (sameOpenApp appId) (entries s)
          then (case find (sameOpenApp appId) (entries s) of
                  None \<Rightarrow> s
                | Some (k, w) \<Rightarrow> if isMinimized w then restored k s else focusWindow (Some k) s)
          else createWindow (openAppOptions appId d e s) e s)"
proof (cases "findAppDef appId")
  case None
  then show ?thesis by (simp add: openApp.simps)
next
  case (Some d)
  show ?thesis
  proof (cases "filter (sameOpenApp appId) (entries s)")
    case Nil
    then show ?thesis using Some filter_sameOpenApp_Nil[of appId s]
      by (simp add: openApp.simps)
  next
    case (Cons x rest)
    obtain k w where x: "x = (k, w)" by (cases x)
    from Cons x have f: "find (sameOpenApp appId) (entries s) = Some (k, w)"
      by (simp add: find_filter_Cons)
    from filter_sameOpenApp[OF Cons[unfolded x]] have w: "getWindow s k = Some w" "isOpen w"
      by simp_all
    have le: "list_ex (sameOpenApp appId) (entries s)"
      using Cons filter_sameOpenApp_Nil[of appId s] by simp
    have r: "restoreWindow k e s = (if isMinimized w then restored k s else focusWindow (Some k) s)"
      using w by (simp add: restoreWindow_cases)
    show ?thesis using Some Cons x f le r
      by (simp add: openApp.simps)
  qed
qed

subsection \<open>Every event keeps the invariants\<close>

lemma registry_ok_openApp:
  assumes "registry_ok s" shows "registry_ok (openApp appId e s)"
proof (cases "findAppDef appId")
  case None
  then show ?thesis using assms by (simp add: openApp_eq)
next
  case (Some d)
  show ?thesis
  proof (cases "\<not> isLaunchable d")
    case True
    then show ?thesis using assms Some by (simp add: openApp_eq)
  next
    case l: False
    show ?thesis
    proof (cases "\<not> allowMultipleInstances d \<and> list_ex (sameOpenApp appId) (entries s)")
      case False
      then show ?thesis using Some l assms
        by (auto simp add: openApp_eq registry_ok_createWindow)
    next
      case True
      show ?thesis
      proof (cases "find (sameOpenApp appId) (entries s)")
        case None
        then show ?thesis using Some l True assms by (simp add: openApp_eq)
      next
        case f: (Some x)
        obtain k w where x: "x = (k, w)" by (cases x)
        from find_sameOpenApp[OF f[unfolded x]] have g: "getWindow s k = Some w" by simp
        have "registry_ok (if isMinimized w then restored k s else focusWindow (Some k) s)"
          using assms by (simp add: registry_ok_restored registry_ok_focusWindow)
        then show ?thesis using Some l True f x by (simp add: openApp_eq)
      qed
    qed
  qed
qed

lemma registry_ok_restoreWindow:
  assumes "registry_ok s" shows "registry_ok (restoreWindow k e s)"
proof (cases "getWindow s k")
  case None
  then show ?thesis using assms by (simp add: restoreWindow_cases)
next
  case (Some w)
  consider "isMinimized w" | "\<not> isMinimized w" "\<not> isOpen w" | "\<not> isMinimized w" "isOpen w"
    by blast
  then show ?thesis
  proof cases
    case 1
    then show ?thesis using Some assms by (simp add: restoreWindow_cases registry_ok_restored)
  next
    case 2
    then show ?thesis using Some assms by (simp add: restoreWindow_cases registry_ok_openApp)
  next
    case 3
    then show ?thesis using Some assms
      by (simp add: restoreWindow_cases registry_ok_focusWindow)
  qed
qed

lemma registry_ok_dragMouseDown:
  assumes "registry_ok s" shows "registry_ok (dragMouseDown k p s)"
  using assms by (simp add: dragMouseDown_def Let_def registry_ok_focusWindow)

lemma activeWindow_Some:
  "activeWindow s = Some (a, w) \<Longrightarrow> activeWindowId s = Some a \<and> getWindow s a = Some w"
  by (auto simp: activeWindow_def split: option.splits if_splits)

lemma registry_ok_fire:
  assumes "registry_ok s" shows "registry_ok (fire ev s)"
proof (cases ev)
  case (OpenApp a e) then show ?thesis using assms by (simp add: registry_ok_openApp)
next
  case (ShowApiKeyError e) then show ?thesis using assms by (simp add: registry_ok_createWindow)
next
  case (TrashClick iw ih e) then show ?thesis using assms by (simp add: registry_ok_createWindow)
next
  case (WindowMouseDown k)
  then show ?thesis using assms by (simp add: registry_ok_focusWindow)
next
  case (TitleBarMouseDown k p)
  then show ?thesis using assms
    by (simp add: registry_ok_dragMouseDown registry_ok_focusWindow)
next
  case (ResizeHandleMouseDown k p)
  then show ?thesis using assms
    by (simp add: registry_ok_resizeMouseDown registry_ok_focusWindow)
next
  case (DocumentMouseMove p) then show ?thesis using assms by (simp add: registry_ok_documentMouseMove)
next
  case DocumentMouseUp then show ?thesis using assms by (simp add: registry_ok_documentMouseUp)
next
  case (CloseClick k) then show ?thesis using assms by (simp add: registry_ok_closeWindow)
next
  case (MinimizeClick k) then show ?thesis using assms by (simp add: registry_ok_minimizeWindow)
next
  case (MaximizeClick k) then show ?thesis using assms by (simp add: registry_ok_toggleMaximizeWindow)
next
  case MenuZoomActive
  then show ?thesis using assms
    by (simp add: menuZoomActive_def registry_ok_toggleMaximizeWindow split: option.split)
next
  case MenuCloseActive
  then show ?thesis using assms
    by (simp add: menuCloseActive_def registry_ok_closeWindow split: option.split)
next
  case MenuMinimizeAll then show ?thesis using assms by (simp add: registry_ok_minimizeAll)
next
  case MenuToggleDock then show ?thesis using assms by (simp add: registry_ok_toggleDockVisibility)
next
  case (MenuFocusWindow k)
  then show ?thesis using assms by (simp add: registry_ok_focusWindow)
next
  case KeyQuit
  then show ?thesis using assms
    by (simp add: keyQuit_def registry_ok_closeWindow split: option.split)
next
  case KeyMinimize
  then show ?thesis using assms
    by (simp add: keyMinimize_def registry_ok_minimizeWindow split: option.split)
next
  case CloseTimeout
  then show ?thesis using assms
    by (simp add: registry_ok_closeWindowTimeout split: list.split)
qed

lemma registry_ok_initial: "registry_ok initial_state"
  by (simp add: registry_ok_def oks initial_state_def getWindow_def)

lemma reachable_registry_ok: "reachable s \<Longrightarrow> registry_ok s"
  by (induction rule: reachable.induct) (simp_all add: registry_ok_initial registry_ok_fire)

subsection \<open>Counting entries\<close>


lemma filter_unique_le_one:
  assumes "distinct (map fst xs)"
    and "\<And>p q. p \<in> set xs \<Longrightarrow> q \<in> set xs \<Longrightarrow> P p \<Longrightarrow> P q \<Longrightarrow> fst p = fst q"
  shows "length (filter P xs) \<le> 1"
  using assms
proof (induction xs)
  case Nil then show ?case by simp
next
  case (Cons x xs)
  show ?case
  proof (cases "P x")
    case True
    have "filter P xs = []"
    proof (rule ccontr)
      assume "filter P xs \<noteq> []"
      then obtain q where q: "q \<in> set xs" "P q" by (auto simp: filter_empty_conv)
      with Cons.prems(2)[of x q] True have "fst x = fst q" by simp
      with q(1) Cons.prems(1) show False by (auto simp: image_iff)
    qed
    with True show ?thesis by simp
  next
    case False
    with Cons show ?thesis by simp
  qed
qed

lemma getWindow_minimizeWindow:
  assumes "getWindow s k = Some w" "\<not> isMinimized w"
  shows "getWindow (minimizeWindow k s) k
     = Some (w\<lparr>originalPosition := Some (style w), isMaximized := False, isMinimized := True\<rparr>)"
  using assms by (simp add: minimizeWindow_def Let_def getWindow_modifyWindow)

lemma getWindow_toggleMaximizeWindow:
  assumes "getWindow s k = Some w" "\<not> isMaximized w"
  shows "getWindow (toggleMaximizeWindow k s) k
     = Some (w\<lparr>originalPosition := Some (style w), isMaximized := True\<rparr>)"
  using assms by (simp add: toggleMaximizeWindow_def getWindow_modifyWindow)

lemma originalPosition_applySnap:
  assumes "getWindow s k = Some w"
  shows "\<exists>w'. getWindow (applySnap k s) k = Some w' \<and> originalPosition w' = originalPosition w"
  using assms by (auto simp add: applySnap_def getWindow_modifyWindow split: option.split)

subsection \<open>Single-instance applications\<close>

lemma findAppDef_def_id: "findAppDef a = Some d \<Longrightarrow> def_id d = a"
  by (auto simp: findAppDef_def find_Some_iff)

lemma map_fst_map_entry: "map fst (AList.map_entry k f xs) = map fst xs"
  by (induction xs) auto

lemma keys_modifyWindow [simp]: "map fst (entries (modifyWindow k f s)) = map fst (entries s)"
  by (simp add: entries_def modifyWindow_def DAList.map_entry.rep_eq map_fst_map_entry)

lemma entries_fields [simp]:
  "entries (s\<lparr>activeWindowId := a\<rparr>) = entries s"
  "entries (s\<lparr>nextZIndex := z\<rparr>) = entries s"
  "entries (s\<lparr>windowMenu := m\<rparr>) = entries s"
  "entries (updateWindowMenu s) = entries s"
  by (simp_all add: entries_def)

lemma keys_focusWindow [simp]: "map fst (entries (focusWindow i s)) = map fst (entries s)"
proof (cases i)
  case None then show ?thesis by simp
next
  case (Some k)
  show ?thesis unfolding Some by (cases rule: focusWindow_cases[of k s]) simp_all
qed

lemma keys_restored [simp]: "map fst (entries (restored k s)) = map fst (entries s)"
  by (simp add: restored_def)

lemma activeWindowId_focusWindow:
  assumes "getWindow s k = Some w" "k \<noteq> []"
  shows "activeWindowId (focusWindow (Some k) s) = Some k"
  using assms by (cases rule: focusWindow_cases[of k s]) simp_all

lemma activeWindowId_restored:
  assumes "getWindow s k = Some w" "k \<noteq> []"
  shows "activeWindowId (restored k s) = Some k"
  using assms by (simp add: restored_def activeWindowId_focusWindow getWindow_modifyWindow)

lemma focusWindow_keeps:
  assumes "getWindow s j = Some w"
  shows "\<exists>w'. getWindow (focusWindow i s) j = Some w' \<and> baseAppId w' = baseAppId w
     \<and> isOpen w' = isOpen w \<and> isMinimized w' = isMinimized w \<and> isMaximized w' = isMaximized w
     \<and> originalPosition w' = originalPosition w \<and> style w' = style w
     \<and> (i \<noteq> Some j \<longrightarrow> w' = w)"
proof (cases i)
  case None with assms show ?thesis by simp
next
  case (Some k)
  show ?thesis unfolding Some using assms
    by (cases rule: focusWindow_cases[of k s]) (auto simp: getWindow_modifyWindow)
qed

lemma restored_keeps:
  assumes "getWindow s k = Some w"
  shows "\<exists>w'. getWindow (restored k s) k = Some w' \<and> baseAppId w' = baseAppId w
     \<and> isOpen w' = isOpen w \<and> \<not> isMinimized w'"
proof -
  let ?s1 = "modifyWindow k
                 (\<lambda>w. w\<lparr>style := (case originalPosition w of Some p \<Rightarrow> p | None \<Rightarrow> style w),
                         isMinimized := False\<rparr>) s"
  from assms obtain w1 where w1: "getWindow ?s1 k = Some w1" "baseAppId w1 = baseAppId w"
    "isOpen w1 = isOpen w" "\<not> isMinimized w1"
    by (simp add: getWindow_modifyWindow)
  from focusWindow_keeps[OF w1(1), of "Some k"] w1 show ?thesis
    by (auto simp: restored_def)
qed

text \<open>What \<^verbatim>\<open>openApp\<close> does for a launchable single-instance application.\<close>

lemma openApp_existing:
  assumes ok: "registry_ok s"
    and d: "findAppDef a = Some d" "isLaunchable d" "\<not> allowMultipleInstances d"
    and w: "getWindow s k = Some w" "baseAppId w = a" "isOpen w"
  shows "openApp a e s = (if isMinimized w then restored k s else focusWindow (Some k) s)"
proof -
  from w have le: "list_ex (sameOpenApp a) (entries s)" by (auto simp: list_ex_sameOpenApp)
  then obtain x where f: "find (sameOpenApp a) (entries s) = Some x"
    by (cases "find (sameOpenApp a) (entries s)") (auto simp: find_None_iff list_ex_iff)
  obtain k' w' where x: "x = (k', w')" by (cases x)
  from find_sameOpenApp[OF f[unfolded x]] have g: "getWindow s k' = Some w'" "baseAppId w' = a" "isOpen w'"
    by simp_all
  from d have si: "singleInstance a" by (simp add: singleInstance_def)
  from ok have "single_ok s" by (simp add: registry_ok_def)
  from this[unfolded single_ok_def, rule_format, of k w k' w'] w g si have "k = k'" by simp
  with g w have "w' = w" by simp
  with d le f x \<open>k = k'\<close> show ?thesis by (simp add: openApp_eq)
qed

lemma openApp_none_open:
  assumes d: "findAppDef a = Some d" "isLaunchable d"
    and none: "allowMultipleInstances d \<or> \<not> list_ex (sameOpenApp a) (entries s)"
  shows "openApp a e s = updateWindowMenu (focusWindow (Some (windowId a (now e)))
             (inserted (windowId a (now e))
                (newWindow (openAppOptions a d e s) (Some d) (nextZIndex s)) s))"
proof -
  have b: "opt_baseAppId (openAppOptions a d e s) = a"
    by (simp add: openAppOptions_def Let_def)
  from d none have "openApp a e s = createWindow (openAppOptions a d e s) e s"
    by (auto simp: openApp_eq)
  also have "\<dots> = updateWindowMenu (focusWindow (Some (windowId a (now e)))
             (inserted (windowId a (now e))
                (newWindow (openAppOptions a d e s) (Some d) (nextZIndex s)) s))"
    using d none unfolding createWindow_eq b by (auto simp: singleInstance_def)
  finally show ?thesis .
qed

lemma inserted_fields [simp]:
  "getWindow (inserted k w s) j = (if j = k then Some w else getWindow s j)"
  "activeWindowId (inserted k w s) = activeWindowId s"
  "nextZIndex (inserted k w s) = nextZIndex s + 1"
  by (simp_all add: inserted_def)

lemma openApp_focusedInstance:
  assumes ok: "registry_ok s"
    and d: "findAppDef a = Some d" "isLaunchable d" "\<not> allowMultipleInstances d"
  shows "\<exists>k. focusedInstance a (openApp a e s) k"
proof (cases "list_ex (sameOpenApp a) (entries s)")
  case True
  then obtain k w where w: "getWindow s k = Some w" "baseAppId w = a" "isOpen w"
    by (auto simp: list_ex_sameOpenApp)
  from ok w(1) have k: "k \<noteq> []" by (auto simp: registry_ok_def keys_ok_def)
  note eq = openApp_existing[OF ok d w, of e]
  show ?thesis
  proof (cases "isMinimized w")
    case True
    from restored_keeps[OF w(1)] activeWindowId_restored[OF w(1) k] w True
    show ?thesis unfolding eq focusedInstance_def by auto
  next
    case False
    from focusWindow_keeps[OF w(1), of "Some k"] activeWindowId_focusWindow[OF w(1) k] w False
    show ?thesis unfolding eq focusedInstance_def by auto
  qed
next
  case False
  let ?n = "windowId a (now e)"
  let ?nw = "newWindow (openAppOptions a d e s) (Some d) (nextZIndex s)"
  have b: "opt_baseAppId (openAppOptions a d e s) = a"
    by (simp add: openAppOptions_def Let_def)
  have g: "getWindow (inserted ?n ?nw s) ?n = Some ?nw" by simp
  from focusWindow_keeps[OF g, of "Some ?n"] activeWindowId_focusWindow[OF g] b
  show ?thesis
    unfolding openApp_none_open[OF d(1,2) disjI2[OF False]] focusedInstance_def
    by auto
qed

lemma openApp_again:
  assumes ok: "registry_ok s"
    and d: "findAppDef a = Some d" "isLaunchable d" "\<not> allowMultipleInstances d"
    and f: "focusedInstance a s k"
  shows "openApp a e s = s"
proof -
  from f obtain w where w: "getWindow s k = Some w" "baseAppId w = a" "isOpen w" "\<not> isMinimized w"
    and act: "activeWindowId s = Some k" unfolding focusedInstance_def by blast
  from ok act w(1) have z: "zIndex w = nextZIndex s - 1" by (auto simp: registry_ok_def focus_ok_def)
  from ok w(1) have k: "k \<noteq> []" by (auto simp: registry_ok_def keys_ok_def)
  have "openApp a e s = focusWindow (Some k) s"
    using openApp_existing[OF ok d w(1,2,3), of e] w(4) by simp
  also have "\<dots> = s" using w act z k by (simp add: focusWindow_Some)
  finally show ?thesis .
qed

subsection \<open>Pointer handlers\<close>

lemma dragPosition_bounds:
  assumes "dragPosition True dockVisible offsetX offsetY p = (x, y)"
  shows "0 \<le> x" "menuBarHeight p \<le> y"
    "offsetWidth p \<le> containerWidth p \<Longrightarrow> x + offsetWidth p \<le> containerWidth p"
    "menuBarHeight p + offsetHeight p + (if dockVisible then dockOffsetHeight p + 10 else 0)
        \<le> containerHeight p \<Longrightarrow>
     y + offsetHeight p + (if dockVisible then dockOffsetHeight p + 10 else 0)
        \<le> containerHeight p"
  using assms by (auto simp: dragPosition_def Let_def split: if_splits)

lemma getWindow_showSnapIndicator:
  assumes "getWindow s k = Some w"
  shows "\<exists>w'. getWindow (showSnapIndicator pos s) k = Some w' \<and> style w' = style w"
  using assms by (auto simp: showSnapIndicator_def getWindow_modifyWindow split: option.split)

lemma getWindow_dragMouseMove:
  assumes "getWindow s k = Some w"
    and "dragPosition True (isDockVisible s) offsetX offsetY p = (x, y)"
  shows "\<exists>w'. getWindow (dragMouseMove k offsetX offsetY p s) k = Some w'
    \<and> style w' = (style w)\<lparr>style_left := Px x, style_top := Px y\<rparr>"
proof -
  let ?s1 = "modifyWindow k
     (\<lambda>w. w\<lparr>style := (style w)\<lparr>style_left := Px x, style_top := Px y\<rparr>\<rparr>) s"
  have g1: "getWindow ?s1 k = Some (w\<lparr>style := (style w)\<lparr>style_left := Px x, style_top := Px y\<rparr>\<rparr>)"
    using assms(1) by (simp add: getWindow_modifyWindow)
  have a: "\<And>pos. \<exists>w'. getWindow (showSnapIndicator pos ?s1) k = Some w'
      \<and> style w' = (style w)\<lparr>style_left := Px x, style_top := Px y\<rparr>"
    using getWindow_showSnapIndicator[OF g1] by simp
  have b: "\<exists>w'. getWindow (modifyWindow k (\<lambda>w. w\<lparr>isSnapping := None\<rparr>) ?s1) k = Some w'
      \<and> style w' = (style w)\<lparr>style_left := Px x, style_top := Px y\<rparr>"
    using assms(1) by (simp add: getWindow_modifyWindow)
  show ?thesis
    unfolding dragMouseMove_def Let_def assms(2) prod.case
    using a b by simp
qed

subsection \<open>The concrete scenarios\<close>

lemmas registry_eval = registry_def entries_def getWindow_def modifyWindow_def
  DAList.lookup.rep_eq DAList.update.rep_eq DAList.map_entry.rep_eq DAList.delete.rep_eq
  DAList.empty.rep_eq DAList.alist_eq_iff

lemmas app_eval = findAppDef_def APP_DEFINITIONS_def appDef_def isSpecialCase_def
  sameOpenApp_def openAppOptions_def first_of_def windowId_def dec.simps newWindow_def
  env_at_def

lemmas op_eval = openApp.simps createWindow.simps restoreWindow.simps focusWindow_def
  updateWindowMenu_def closeWindow_def closeWindowTimeout_def minimizeWindow_def
  toggleMaximizeWindow_def Let_def activeWindow_def keyQuit_def keyMinimize_def
  menuZoomActive_def menuCloseActive_def

lemmas pointer_eval = pointer_at_def dragMouseDown_def dragMouseMove_def dragMouseUp_def
  dragPosition_def showSnapIndicator_def applySnap_def snapGeometry_def resizeMouseDown_def
  resizeMouseMove_def resizeMouseUp_def documentMouseMove_def documentMouseUp_def

lemma settings_open_eq: "fire (OpenApp ''Settings'' (env_at 5)) initial_state = settings_open"
  by (simp add: settings_open_def settings_window_def initial_state_def
      registry_eval app_eval op_eval)

lemma reachable_settings_open: "reachable settings_open"
  using reachable_step[OF reachable_init, of "OpenApp ''Settings'' (env_at 5)"]
  by (simp only: settings_open_eq)

lemma settings_closing_eq: "fire (CloseClick ''Settings-5'') settings_open = settings_closing"
  by (simp add: settings_open_def settings_closing_def settings_window_def
      registry_eval app_eval op_eval)

lemma reachable_settings_closing: "reachable settings_closing"
  using reachable_step[OF reachable_settings_open, of "CloseClick ''Settings-5''"]
  by (simp only: settings_closing_eq)

lemma settings_reopened_eq:
  "fire (OpenApp ''Settings'' (env_at 6)) settings_closing = settings_reopened"
  by (simp add: settings_closing_def settings_reopened_def settings_window_def
      registry_eval app_eval op_eval)

lemma reachable_settings_reopened: "reachable settings_reopened"
  using reachable_step[OF reachable_settings_closing, of "OpenApp ''Settings'' (env_at 6)"]
  by (simp only: settings_reopened_eq)

lemma settings_snapped_eq:
  "fire DocumentMouseUp (fire (DocumentMouseMove (pointer_at 10 300 500 480))
     (fire (TitleBarMouseDown ''Settings-5'' (pointer_at 60 60 500 480)) settings_open))
   = settings_snapped"
  by (simp add: settings_open_def settings_snapped_def settings_window_def
      registry_eval app_eval op_eval pointer_eval)

lemma reachable_settings_snapped: "reachable settings_snapped"
proof -
  let ?down = "TitleBarMouseDown ''Settings-5'' (pointer_at 60 60 500 480)"
  let ?move = "DocumentMouseMove (pointer_at 10 300 500 480)"
  from reachable_step[OF reachable_settings_open, of ?down]
  have "reachable (fire ?down settings_open)" .
  from reachable_step[OF this, of ?move]
  have "reachable (fire ?move (fire ?down settings_open))" .
  from reachable_step[OF this, of DocumentMouseUp] show ?thesis
    by (simp only: settings_snapped_eq)
qed

lemmas state_defs = settings_open_def settings_closing_def settings_reopened_def
  settings_snapped_def two_windows_def settings_minimized_def settings_restored_def
  settings_closing_minimized_def trash_closing_def sticky_open_def settings_window_def
  sticky_window_def initial_state_def

lemmas all_eval = state_defs registry_eval app_eval op_eval pointer_eval
  trashOptions_def apiKeyErrorOptions_def



lemma settings_minimized_eq:
  "fire (MinimizeClick ''Settings-5'') settings_open = settings_minimized"
  by (simp add: all_eval)

lemma reachable_settings_minimized: "reachable settings_minimized"
  using reachable_step[OF reachable_settings_open, of "MinimizeClick ''Settings-5''"]
  by (simp only: settings_minimized_eq)

lemma settings_restored_eq:
  "openApp ''Settings'' (env_at 6) settings_minimized = settings_restored"
  by (simp add: all_eval)

lemma settings_closing_minimized_eq:
  "fire KeyMinimize (fire KeyQuit settings_open) = settings_closing_minimized"
  by (simp add: all_eval)

lemma reachable_settings_closing_minimized: "reachable settings_closing_minimized"
proof -
  from reachable_step[OF reachable_settings_open, of KeyQuit]
  have "reachable (fire KeyQuit settings_open)" .
  from reachable_step[OF this, of KeyMinimize] show ?thesis
    by (simp only: settings_closing_minimized_eq)
qed

lemma trash_closing_eq:
  "fire (CloseClick ''TrashMessage-5'') (fire (TrashClick 1280 800 (env_at 5)) initial_state)
     = trash_closing"
  by (simp add: all_eval)

lemma reachable_trash_closing: "reachable trash_closing"
proof -
  let ?open = "TrashClick 1280 800 (env_at 5)"
  from reachable_step[OF reachable_init, of ?open]
  have "reachable (fire ?open initial_state)" .
  from reachable_step[OF this, of "CloseClick ''TrashMessage-5''"] show ?thesis
    by (simp only: trash_closing_eq)
qed

lemma sticky_open_eq: "fire (OpenApp ''StickyNotes'' (env_at 5)) initial_state = sticky_open"
  by (simp add: all_eval)

lemma settingsDef:
  "findAppDef ''Settings'' = Some (appDef ''Settings'' True False (Some ''settings-content'')
      (Some (Px 500)) (Some (Px 480)))"
  by (simp add: findAppDef_def APP_DEFINITIONS_def appDef_def)

lemma reachable_sticky_open: "reachable sticky_open"
  using reachable_step[OF reachable_init, of "OpenApp ''StickyNotes'' (env_at 5)"]
  by (simp only: sticky_open_eq)



section \<open>Claims\<close>

subsection \<open>C1: the focused window\<close>




subsection \<open>C2: opening a single-instance application twice\<close>

text \<open>
  C2, counterexample. Trash is an entry of \<^verbatim>\<open>APP_DEFINITIONS\<close> that does not allow
  multiple instances, and it is not launchable: \<^verbatim>\<open>openApp('Trash')\<close> returns at line 885,
  so two calls in a row leave the registry empty instead of holding one record.
\<close>

theorem openApp_twice_not_launchable:
  "findAppDef ''Trash'' = Some (appDef ''Trash'' False False None None None)
   \<and> \<not> allowMultipleInstances (appDef ''Trash'' False False None None None)
   \<and> entries (openApp ''Trash'' (env_at 6) (openApp ''Trash'' (env_at 5) initial_state)) = []"
  by (simp add: all_eval)

text \<open>
  C2, amended. For every launchable application of \<^verbatim>\<open>APP_DEFINITIONS\<close> that does not allow
  multiple instances, and every reachable state: after two calls of \<^verbatim>\<open>openApp\<close> in a row
  exactly one record of that application has \<^verbatim>\<open>isOpen\<close>, it is not minimized and it is the
  active window; the second call changes nothing at all; and when a record of the
  application with \<^verbatim>\<open>isOpen\<close> already exists, the first call creates no record, makes
  that record the active window and leaves it not minimized.
\<close>

theorem openApp_twice_single_instance:
  assumes "reachable s" and "findAppDef a = Some d" and "isLaunchable d"
    and "\<not> allowMultipleInstances d"
  shows "(\<exists>k w. getWindow (openApp a e2 (openApp a e1 s)) k = Some w \<and> baseAppId w = a
            \<and> isOpen w \<and> \<not> isMinimized w
            \<and> activeWindowId (openApp a e2 (openApp a e1 s)) = Some k
            \<and> (\<forall>j v. getWindow (openApp a e2 (openApp a e1 s)) j = Some v \<and> baseAppId v = a
                  \<and> isOpen v \<longrightarrow> j = k))
    \<and> openApp a e2 (openApp a e1 s) = openApp a e1 s
    \<and> (\<forall>k w. getWindow s k = Some w \<and> baseAppId w = a \<and> isOpen w \<longrightarrow>
          map fst (entries (openApp a e1 s)) = map fst (entries s)
          \<and> activeWindowId (openApp a e1 s) = Some k
          \<and> (\<exists>w'. getWindow (openApp a e1 s) k = Some w' \<and> isOpen w' \<and> \<not> isMinimized w'))"
proof -
  let ?s1 = "openApp a e1 s"
  from assms(1) have ok: "registry_ok s" by (rule reachable_registry_ok)
  then have ok1: "registry_ok ?s1" by (rule registry_ok_openApp)
  from openApp_focusedInstance[OF ok assms(2,3,4), of e1]
  obtain k where f: "focusedInstance a ?s1 k" by blast
  have same: "openApp a e2 ?s1 = ?s1" by (rule openApp_again[OF ok1 assms(2,3,4) f])
  from f obtain w where w: "getWindow ?s1 k = Some w" "baseAppId w = a" "isOpen w"
    "\<not> isMinimized w" and act: "activeWindowId ?s1 = Some k"
    unfolding focusedInstance_def by blast
  from assms(2,4) have si: "singleInstance a" by (simp add: singleInstance_def)
  from ok1 have so: "single_ok ?s1" by (simp add: registry_ok_def)
  have uniq: "j = k" if "getWindow ?s1 j = Some v" "baseAppId v = a" "isOpen v" for j v
    using so[unfolded single_ok_def, rule_format, of j v k w] that w si by simp
  have one: "\<exists>k w. getWindow ?s1 k = Some w \<and> baseAppId w = a \<and> isOpen w \<and> \<not> isMinimized w
            \<and> activeWindowId ?s1 = Some k
            \<and> (\<forall>j v. getWindow ?s1 j = Some v \<and> baseAppId v = a \<and> isOpen v \<longrightarrow> j = k)"
    using w act uniq by blast
  have ex: "map fst (entries ?s1) = map fst (entries s) \<and> activeWindowId ?s1 = Some j
          \<and> (\<exists>w'. getWindow ?s1 j = Some w' \<and> isOpen w' \<and> \<not> isMinimized w')"
    if v: "getWindow s j = Some v" "baseAppId v = a" "isOpen v" for j v
  proof -
    from ok v(1) have j: "j \<noteq> []" by (auto simp: registry_ok_def keys_ok_def)
    note eq = openApp_existing[OF ok assms(2,3,4) v, of e1]
    show ?thesis
    proof (cases "isMinimized v")
      case True
      from restored_keeps[OF v(1)] activeWindowId_restored[OF v(1) j] v True
      show ?thesis unfolding eq by auto
    next
      case False
      from focusWindow_keeps[OF v(1), of "Some j"] activeWindowId_focusWindow[OF v(1) j] v False
      show ?thesis unfolding eq by auto
    qed
  qed
  from ex have ex': "\<forall>k w. getWindow s k = Some w \<and> baseAppId w = a \<and> isOpen w \<longrightarrow>
          map fst (entries ?s1) = map fst (entries s)
          \<and> activeWindowId ?s1 = Some k
          \<and> (\<exists>w'. getWindow ?s1 k = Some w' \<and> isOpen w' \<and> \<not> isMinimized w')"
    by blast
  show ?thesis unfolding same
    by (intro conjI one ex' refl)
qed

text \<open>
  C2, witness: Settings is minimized; \<^verbatim>\<open>openApp('Settings')\<close> restores and focuses the
  existing record, and a second call returns the same state.
\<close>

theorem openApp_twice_single_instance_witness:
  "reachable settings_minimized
   \<and> findAppDef ''Settings'' = Some (appDef ''Settings'' True False (Some ''settings-content'')
        (Some (Px 500)) (Some (Px 480)))
   \<and> isLaunchable (appDef ''Settings'' True False (Some ''settings-content'')
        (Some (Px 500)) (Some (Px 480)))
   \<and> \<not> allowMultipleInstances (appDef ''Settings'' True False (Some ''settings-content'')
        (Some (Px 500)) (Some (Px 480)))
   \<and> map fst (entries settings_minimized) = [''Settings-5'']
   \<and> map_option baseAppId (getWindow settings_minimized ''Settings-5'') = Some ''Settings''
   \<and> map_option isOpen (getWindow settings_minimized ''Settings-5'') = Some True
   \<and> map_option isMinimized (getWindow settings_minimized ''Settings-5'') = Some True
   \<and> openApp ''Settings'' (env_at 6) settings_minimized = settings_restored
   \<and> openApp ''Settings'' (env_at 7) (openApp ''Settings'' (env_at 6) settings_minimized)
       = settings_restored
   \<and> map fst (entries settings_restored) = [''Settings-5'']
   \<and> map_option isOpen (getWindow settings_restored ''Settings-5'') = Some True
   \<and> map_option isMinimized (getWindow settings_restored ''Settings-5'') = Some False
   \<and> activeWindowId settings_restored = Some ''Settings-5''"
proof -
  let ?d = "appDef ''Settings'' True False (Some ''settings-content'') (Some (Px 500)) (Some (Px 480))"
  have l: "isLaunchable ?d" and m: "\<not> allowMultipleInstances ?d" by (simp_all add: appDef_def)
  from openApp_twice_single_instance[OF reachable_settings_minimized settingsDef l m,
      of "env_at 7" "env_at 6"]
  have "openApp ''Settings'' (env_at 7) (openApp ''Settings'' (env_at 6) settings_minimized)
       = openApp ''Settings'' (env_at 6) settings_minimized" by blast
  then have twice: "openApp ''Settings'' (env_at 7) (openApp ''Settings'' (env_at 6) settings_minimized)
       = settings_restored" by (simp only: settings_restored_eq)
  have rest: "map fst (entries settings_minimized) = [''Settings-5'']"
    "map_option baseAppId (getWindow settings_minimized ''Settings-5'') = Some ''Settings''"
    "map_option isOpen (getWindow settings_minimized ''Settings-5'') = Some True"
    "map_option isMinimized (getWindow settings_minimized ''Settings-5'') = Some True"
    "map fst (entries settings_restored) = [''Settings-5'']"
    "map_option isOpen (getWindow settings_restored ''Settings-5'') = Some True"
    "map_option isMinimized (getWindow settings_restored ''Settings-5'') = Some False"
    "activeWindowId settings_restored = Some ''Settings-5''"
    by (simp_all add: state_defs registry_eval)
  show ?thesis
    using reachable_settings_minimized settingsDef l m twice rest settings_restored_eq
    by (intro conjI)
qed

subsection \<open>C3: records of a single-instance application\<close>

text \<open>
  C3, counterexample. Open Settings, click its close button, and open Settings again
  before the 200 ms timer has run: the registry holds two Settings records, the closing
  one (\<^verbatim>\<open>isOpen = false\<close>, not yet removed) and a new one.
\<close>

theorem second_record_during_close_grace_period:
  "settings_reopened = fire (OpenApp ''Settings'' (env_at 6))
       (fire (CloseClick ''Settings-5'') (fire (OpenApp ''Settings'' (env_at 5)) initial_state))
   \<and> reachable settings_reopened
   \<and> singleInstance ''Settings''
   \<and> map fst (entries settings_reopened) = [''Settings-5'', ''Settings-6'']
   \<and> map_option baseAppId (getWindow settings_reopened ''Settings-5'') = Some ''Settings''
   \<and> map_option isOpen (getWindow settings_reopened ''Settings-5'') = Some False
   \<and> map_option baseAppId (getWindow settings_reopened ''Settings-6'') = Some ''Settings''
   \<and> map_option isOpen (getWindow settings_reopened ''Settings-6'') = Some True"
proof -
  have "singleInstance ''Settings''" by (simp add: singleInstance_def settingsDef appDef_def)
  moreover have "map fst (entries settings_reopened) = [''Settings-5'', ''Settings-6'']"
    "map_option baseAppId (getWindow settings_reopened ''Settings-5'') = Some ''Settings''"
    "map_option isOpen (getWindow settings_reopened ''Settings-5'') = Some False"
    "map_option baseAppId (getWindow settings_reopened ''Settings-6'') = Some ''Settings''"
    "map_option isOpen (getWindow settings_reopened ''Settings-6'') = Some True"
    by (simp_all add: state_defs registry_eval)
  ultimately show ?thesis
    using reachable_settings_reopened
    by (simp only: settings_open_eq settings_closing_eq settings_reopened_eq simp_thms)
qed

text \<open>
  C3, amended. For every application that does not allow multiple instances, every
  reachable state holds at most one record of it with \<^verbatim>\<open>isOpen = true\<close>. A record in
  its close grace period has \<^verbatim>\<open>isOpen = false\<close> and is not counted, so opening the
  application then adds a second record beside it.
\<close>

theorem single_instance_one_open_record:
  assumes "reachable s" and "singleInstance appId"
  shows "length (filter (sameOpenApp appId) (entries s)) \<le> 1"
proof -
  from assms(1) have "registry_ok s" by (rule reachable_registry_ok)
  then have si: "single_ok s" by (simp add: registry_ok_def)
  have d: "distinct (map fst (entries s))" by (simp add: entries_def)
  show ?thesis
  proof (rule filter_unique_le_one[OF d])
    fix p q
    assume a: "p \<in> set (entries s)" "q \<in> set (entries s)" "sameOpenApp appId p" "sameOpenApp appId q"
    obtain i w where p: "p = (i, w)" by (cases p)
    obtain j v where q: "q = (j, v)" by (cases q)
    from a p q have g: "getWindow s i = Some w" "getWindow s j = Some v" "isOpen w" "isOpen v"
      "baseAppId w = appId" "baseAppId v = appId"
      by (simp_all add: entries_getWindow sameOpenApp_def)
    from si[unfolded single_ok_def, rule_format, of i w j v] g assms(2) have "i = j" by simp
    with p q show "fst p = fst q" by simp
  qed
qed

text \<open>
  C3, witness: the state of the counterexample has exactly one Settings record with
  \<^verbatim>\<open>isOpen\<close>.
\<close>

theorem single_instance_one_open_record_witness:
  "reachable settings_reopened
   \<and> singleInstance ''Settings''
   \<and> length (filter (sameOpenApp ''Settings'') (entries settings_reopened)) = 1"
proof -
  have si: "singleInstance ''Settings''" by (simp add: singleInstance_def settingsDef appDef_def)
  have "length (filter (sameOpenApp ''Settings'') (entries settings_reopened)) = 1"
    using single_instance_one_open_record[OF reachable_settings_reopened si]
    by (simp add: state_defs registry_eval sameOpenApp_def)
  with reachable_settings_reopened si show ?thesis by (intro conjI)
qed

subsection \<open>C4: maximize and restore\<close>



subsection \<open>C5: the saved geometry\<close>

text \<open>
  C5, counterexample. Open Settings, drag its title bar to the left edge and release:
  \<^verbatim>\<open>applySnap\<close> overwrites the geometry with the left rectangle and the record still has
  no \<^verbatim>\<open>originalPosition\<close>; the geometry before the snap is lost.
\<close>

theorem applySnap_takes_no_snapshot:
  "settings_snapped = fire DocumentMouseUp (fire (DocumentMouseMove (pointer_at 10 300 500 480))
       (fire (TitleBarMouseDown ''Settings-5'' (pointer_at 60 60 500 480))
          (fire (OpenApp ''Settings'' (env_at 5)) initial_state)))
   \<and> reachable settings_snapped
   \<and> map_option style (getWindow settings_open ''Settings-5'')
       = Some \<lparr>style_top = Px 50, style_left = Px 50, style_width = Px 500,
               style_height = Px 480\<rparr>
   \<and> map_option style (getWindow settings_snapped ''Settings-5'')
       = Some \<lparr>style_top = Px 30, style_left = Px 2, style_width = CalcVw 50 (- 4),
               style_height = CalcVh 100 (- 102)\<rparr>
   \<and> map_option originalPosition (getWindow settings_snapped ''Settings-5'') = Some None"
proof -
  have "map_option style (getWindow settings_open ''Settings-5'')
       = Some \<lparr>style_top = Px 50, style_left = Px 50, style_width = Px 500,
               style_height = Px 480\<rparr>"
    by (simp add: state_defs registry_eval)
  moreover have "map_option style (getWindow settings_snapped ''Settings-5'')
       = Some \<lparr>style_top = Px 30, style_left = Px 2, style_width = CalcVw 50 (- 4),
               style_height = CalcVh 100 (- 102)\<rparr>"
    "map_option originalPosition (getWindow settings_snapped ''Settings-5'') = Some None"
    by (simp_all add: state_defs registry_eval snapGeometry_def)
  ultimately show ?thesis using reachable_settings_snapped
    by (simp only: settings_open_eq settings_snapped_eq simp_thms)
qed

text \<open>
  C5, amended. In every reachable state every maximized or minimized window has an
  \<^verbatim>\<open>originalPosition\<close>; \<^verbatim>\<open>minimizeWindow\<close> on a window that is not minimized and
  \<^verbatim>\<open>toggleMaximizeWindow\<close> on a window that is not maximized store the geometry the
  window has at the call; \<^verbatim>\<open>applySnap\<close> takes no snapshot and leaves
  \<^verbatim>\<open>originalPosition\<close> as it was.
\<close>

theorem saved_geometry_when_maximized_or_minimized:
  assumes "reachable s"
  shows "(\<forall>k w. getWindow s k = Some w \<and> (isMaximized w \<or> isMinimized w)
            \<longrightarrow> originalPosition w \<noteq> None)
    \<and> (\<forall>k w. getWindow s k = Some w \<and> \<not> isMinimized w \<longrightarrow>
          (\<exists>w'. getWindow (minimizeWindow k s) k = Some w' \<and> isMinimized w'
             \<and> originalPosition w' = Some (style w)))
    \<and> (\<forall>k w. getWindow s k = Some w \<and> \<not> isMaximized w \<longrightarrow>
          (\<exists>w'. getWindow (toggleMaximizeWindow k s) k = Some w' \<and> isMaximized w'
             \<and> originalPosition w' = Some (style w)))
    \<and> (\<forall>k w. getWindow s k = Some w \<longrightarrow>
          (\<exists>w'. getWindow (applySnap k s) k = Some w'
             \<and> originalPosition w' = originalPosition w))"
proof -
  from assms have "registry_ok s" by (rule reachable_registry_ok)
  then have "saved_ok s" by (simp add: registry_ok_def)
  then have a: "\<forall>k w. getWindow s k = Some w \<and> (isMaximized w \<or> isMinimized w)
            \<longrightarrow> originalPosition w \<noteq> None"
    unfolding saved_ok_def saved_def by blast
  have b: "\<forall>k w. getWindow s k = Some w \<and> \<not> isMinimized w \<longrightarrow>
          (\<exists>w'. getWindow (minimizeWindow k s) k = Some w' \<and> isMinimized w'
             \<and> originalPosition w' = Some (style w))"
    by (simp add: getWindow_minimizeWindow)
  have c: "\<forall>k w. getWindow s k = Some w \<and> \<not> isMaximized w \<longrightarrow>
          (\<exists>w'. getWindow (toggleMaximizeWindow k s) k = Some w' \<and> isMaximized w'
             \<and> originalPosition w' = Some (style w))"
    by (simp add: getWindow_toggleMaximizeWindow)
  have d: "\<forall>k w. getWindow s k = Some w \<longrightarrow>
          (\<exists>w'. getWindow (applySnap k s) k = Some w'
             \<and> originalPosition w' = originalPosition w)"
    by (simp add: originalPosition_applySnap)
  from a b c d show ?thesis by blast
qed

text \<open>
  C5, witness: the minimized Settings window carries its geometry; minimizing or
  maximizing the open Settings window stores (50, 50, 500, 480); snapping stores nothing.
\<close>

theorem saved_geometry_witness:
  "reachable settings_minimized
   \<and> map_option isMinimized (getWindow settings_minimized ''Settings-5'') = Some True
   \<and> map_option originalPosition (getWindow settings_minimized ''Settings-5'')
       = Some (Some \<lparr>style_top = Px 50, style_left = Px 50, style_width = Px 500,
                     style_height = Px 480\<rparr>)
   \<and> reachable settings_open
   \<and> getWindow settings_open ''Settings-5'' = Some settings_window
   \<and> \<not> isMinimized settings_window \<and> \<not> isMaximized settings_window
   \<and> map_option isMinimized
        (getWindow (minimizeWindow ''Settings-5'' settings_open) ''Settings-5'') = Some True
   \<and> map_option originalPosition
        (getWindow (minimizeWindow ''Settings-5'' settings_open) ''Settings-5'')
       = Some (Some (style settings_window))
   \<and> map_option isMaximized
        (getWindow (toggleMaximizeWindow ''Settings-5'' settings_open) ''Settings-5'') = Some True
   \<and> map_option originalPosition
        (getWindow (toggleMaximizeWindow ''Settings-5'' settings_open) ''Settings-5'')
       = Some (Some (style settings_window))
   \<and> map_option originalPosition (getWindow (applySnap ''Settings-5'' settings_open) ''Settings-5'')
       = Some (originalPosition settings_window)"
proof -
  have g: "getWindow settings_open ''Settings-5'' = Some settings_window"
    by (simp add: settings_open_def registry_eval)
  have n: "\<not> isMinimized settings_window" "\<not> isMaximized settings_window"
    by (simp_all add: settings_window_def)
  have a: "map_option isMinimized (getWindow settings_minimized ''Settings-5'') = Some True"
    "map_option originalPosition (getWindow settings_minimized ''Settings-5'')
       = Some (Some \<lparr>style_top = Px 50, style_left = Px 50, style_width = Px 500,
                     style_height = Px 480\<rparr>)"
    by (simp_all add: state_defs registry_eval)
  note t = saved_geometry_when_maximized_or_minimized[OF reachable_settings_open]
  note t' = saved_geometry_when_maximized_or_minimized[OF reachable_settings_minimized]
  from t g n obtain w1 where w1:
    "getWindow (minimizeWindow ''Settings-5'' settings_open) ''Settings-5'' = Some w1"
    "isMinimized w1" "originalPosition w1 = Some (style settings_window)" by blast
  then have b: "map_option isMinimized
        (getWindow (minimizeWindow ''Settings-5'' settings_open) ''Settings-5'') = Some True"
    "map_option originalPosition
        (getWindow (minimizeWindow ''Settings-5'' settings_open) ''Settings-5'')
       = Some (Some (style settings_window))" by simp_all
  from t g n obtain w2 where w2:
    "getWindow (toggleMaximizeWindow ''Settings-5'' settings_open) ''Settings-5'' = Some w2"
    "isMaximized w2" "originalPosition w2 = Some (style settings_window)" by blast
  then have c: "map_option isMaximized
        (getWindow (toggleMaximizeWindow ''Settings-5'' settings_open) ''Settings-5'') = Some True"
    "map_option originalPosition
        (getWindow (toggleMaximizeWindow ''Settings-5'' settings_open) ''Settings-5'')
       = Some (Some (style settings_window))" by simp_all
  from t g obtain w3 where w3:
    "getWindow (applySnap ''Settings-5'' settings_open) ''Settings-5'' = Some w3"
    "originalPosition w3 = originalPosition settings_window" by blast
  then have d: "map_option originalPosition
        (getWindow (applySnap ''Settings-5'' settings_open) ''Settings-5'')
       = Some (originalPosition settings_window)" by simp
  from t' have "originalPosition (settings_window\<lparr>isMinimized := True,
            originalPosition := Some (style settings_window)\<rparr>) \<noteq> None" by simp
  with reachable_settings_minimized reachable_settings_open a g n b c d show ?thesis
    by (intro conjI)
qed

subsection \<open>C6: resizing a snapped window\<close>

text \<open>
  C6. The code at the failing input: \<^verbatim>\<open>applySnap\<close> resets \<^verbatim>\<open>isSnapping\<close> to
  \<^verbatim>\<open>null\<close> (line 604), so the guard of line 616 does not fire for the snapped Settings
  window; a mouse down on its resize handle starts a resize session and the next
  pointer move changes its width and height.
\<close>

theorem resize_after_snap:
  "reachable settings_snapped
   \<and> map_option isSnapping (getWindow settings_snapped ''Settings-5'') = Some None
   \<and> map_option isMaximized (getWindow settings_snapped ''Settings-5'') = Some False
   \<and> map_option style (getWindow settings_snapped ''Settings-5'')
       = Some \<lparr>style_top = Px 30, style_left = Px 2, style_width = CalcVw 50 (- 4),
               style_height = CalcVh 100 (- 102)\<rparr>
   \<and> pointerSession (fire (ResizeHandleMouseDown ''Settings-5'' (pointer_at 630 720 636 698))
        settings_snapped) = ResizeSession ''Settings-5'' 630 720 636 698
   \<and> map_option style (getWindow
        (fire (DocumentMouseMove (pointer_at 730 770 636 698))
           (fire (ResizeHandleMouseDown ''Settings-5'' (pointer_at 630 720 636 698))
              settings_snapped)) ''Settings-5'')
       = Some \<lparr>style_top = Px 30, style_left = Px 2, style_width = Px 736,
               style_height = Px 748\<rparr>"
proof -
  have "map_option isSnapping (getWindow settings_snapped ''Settings-5'') = Some None"
    "map_option isMaximized (getWindow settings_snapped ''Settings-5'') = Some False"
    "map_option style (getWindow settings_snapped ''Settings-5'')
       = Some \<lparr>style_top = Px 30, style_left = Px 2, style_width = CalcVw 50 (- 4),
               style_height = CalcVh 100 (- 102)\<rparr>"
    by (simp_all add: all_eval)
  moreover have "pointerSession (fire (ResizeHandleMouseDown ''Settings-5'' (pointer_at 630 720 636 698))
        settings_snapped) = ResizeSession ''Settings-5'' 630 720 636 698"
    by (simp add: all_eval)
  moreover have "map_option style (getWindow
        (fire (DocumentMouseMove (pointer_at 730 770 636 698))
           (fire (ResizeHandleMouseDown ''Settings-5'' (pointer_at 630 720 636 698))
              settings_snapped)) ''Settings-5'')
       = Some \<lparr>style_top = Px 30, style_left = Px 2, style_width = Px 736,
               style_height = Px 748\<rparr>"
    by (simp add: all_eval)
  ultimately show ?thesis using reachable_settings_snapped by (intro conjI)
qed

subsection \<open>C7: maximizing a minimized window\<close>

text \<open>
  C7. The code at the failing input: \<^verbatim>\<open>toggleMaximizeWindow\<close> on the minimized Settings
  window sets \<^verbatim>\<open>isMaximized\<close> and leaves \<^verbatim>\<open>isMinimized\<close> set.
\<close>

theorem toggleMaximize_on_minimized_window:
  "settings_minimized = minimizeWindow ''Settings-5'' (openApp ''Settings'' (env_at 5) initial_state)
   \<and> map_option isMinimized (getWindow settings_minimized ''Settings-5'') = Some True
   \<and> map_option isMaximized (getWindow settings_minimized ''Settings-5'') = Some False
   \<and> map_option isMinimized
        (getWindow (toggleMaximizeWindow ''Settings-5'' settings_minimized) ''Settings-5'')
       = Some True
   \<and> map_option isMaximized
        (getWindow (toggleMaximizeWindow ''Settings-5'' settings_minimized) ''Settings-5'')
       = Some True"
proof -
  have "map_option isMinimized (getWindow settings_minimized ''Settings-5'') = Some True"
    "map_option isMaximized (getWindow settings_minimized ''Settings-5'') = Some False"
    "map_option isMinimized
        (getWindow (toggleMaximizeWindow ''Settings-5'' settings_minimized) ''Settings-5'')
       = Some True"
    "map_option isMaximized
        (getWindow (toggleMaximizeWindow ''Settings-5'' settings_minimized) ''Settings-5'')
       = Some True"
    by (simp_all add: all_eval)
  moreover have "settings_minimized
      = minimizeWindow ''Settings-5'' (openApp ''Settings'' (env_at 5) initial_state)"
    using settings_open_eq settings_minimized_eq by simp
  ultimately show ?thesis by (intro conjI)
qed

subsection \<open>C8: geometry after a pointer move\<close>

text \<open>
  C8, counterexample. A Sticky Notes window is created 250 by 250 (line 80). A drag
  session, and a resize session without a pointer move, both end with width 250 and
  height 250. A window 1400 pixels wide dragged in a container of 1280 is placed at
  left 0 and reaches beyond the container.
\<close>

theorem drag_and_resize_keep_small_size:
  "sticky_open = fire (OpenApp ''StickyNotes'' (env_at 5)) initial_state
   \<and> reachable sticky_open
   \<and> map_option style (getWindow
        (fire DocumentMouseUp (fire (DocumentMouseMove (pointer_at 300 300 250 250))
           (fire (TitleBarMouseDown ''StickyNotes-5'' (pointer_at 60 60 250 250)) sticky_open)))
        ''StickyNotes-5'')
       = Some \<lparr>style_top = Px 290, style_left = Px 290, style_width = Px 250,
               style_height = Px 250\<rparr>
   \<and> map_option style (getWindow
        (fire DocumentMouseUp
           (fire (ResizeHandleMouseDown ''StickyNotes-5'' (pointer_at 295 295 250 250))
              sticky_open))
        ''StickyNotes-5'')
       = Some \<lparr>style_top = Px 50, style_left = Px 50, style_width = Px 250,
               style_height = Px 250\<rparr>
   \<and> dragPosition True True 10 10 (pointer_at 300 300 1400 480) = (0, 250)
   \<and> containerWidth (pointer_at 300 300 1400 480) < 0 + offsetWidth (pointer_at 300 300 1400 480)"
proof -
  have "map_option style (getWindow
        (fire DocumentMouseUp (fire (DocumentMouseMove (pointer_at 300 300 250 250))
           (fire (TitleBarMouseDown ''StickyNotes-5'' (pointer_at 60 60 250 250)) sticky_open)))
        ''StickyNotes-5'')
       = Some \<lparr>style_top = Px 290, style_left = Px 290, style_width = Px 250,
               style_height = Px 250\<rparr>"
    by (simp add: all_eval)
  moreover have "map_option style (getWindow
        (fire DocumentMouseUp
           (fire (ResizeHandleMouseDown ''StickyNotes-5'' (pointer_at 295 295 250 250))
              sticky_open))
        ''StickyNotes-5'')
       = Some \<lparr>style_top = Px 50, style_left = Px 50, style_width = Px 250,
               style_height = Px 250\<rparr>"
    by (simp add: all_eval)
  moreover have "dragPosition True True 10 10 (pointer_at 300 300 1400 480) = (0, 250)"
    by (simp add: dragPosition_def pointer_at_def Let_def)
  moreover have "containerWidth (pointer_at 300 300 1400 480)
      < 0 + offsetWidth (pointer_at 300 300 1400 480)"
    by (simp add: pointer_at_def)
  ultimately show ?thesis using reachable_sticky_open sticky_open_eq[symmetric]
    by (intro conjI)
qed

text \<open>
  C8, amended. After every pointer move of a resize session the window has width
  \<open>max 300 _\<close> and height \<open>max 200 _\<close>, hence at least 300 and 200, and its position is
  unchanged. After every pointer move of a window drag the left coordinate is at least
  0 and the top coordinate at least the height of the menu bar; the right edge stays
  inside the container when the window is no wider than the container, and the bottom
  edge stays above the dock (its height plus 10 when the dock is visible) when the
  window fits between menu bar and dock; width and height are unchanged by the move.
  Pressing and releasing the resize handle change no record and pressing the title bar
  changes no geometry. Releasing the title bar changes no record when no snap is pending;
  when one is pending (\<^verbatim>\<open>isSnapping\<close> is set), \<^verbatim>\<open>applySnap\<close> replaces the whole
  geometry, width and height included, by the rectangle of that edge, which is written
  in viewport units and is not clamped. A move of the focused window sets the pending
  snap from the pointer alone: left within 20 pixels of the left edge, right within 20
  of the right edge, top within 20 below the menu bar, none otherwise. So a window
  created smaller than 300 by 200 keeps its size until a resize move or a snap.
\<close>

theorem pointer_move_geometry:
  assumes "getWindow s k = Some w"
  shows "(\<exists>w' x y. getWindow (resizeMouseMove k startX startY startWidth startHeight p s) k = Some w'
            \<and> style_width (style w') = Px x \<and> style_height (style w') = Px y
            \<and> x = max 300 (startWidth + (clientX p - startX)) \<and> 300 \<le> x
            \<and> y = max 200 (startHeight + (clientY p - startY)) \<and> 200 \<le> y
            \<and> style_left (style w') = style_left (style w)
            \<and> style_top (style w') = style_top (style w))
    \<and> (\<exists>w' x y. getWindow (dragMouseMove k offsetX offsetY p s) k = Some w'
            \<and> style_left (style w') = Px x \<and> style_top (style w') = Px y
            \<and> 0 \<le> x \<and> menuBarHeight p \<le> y
            \<and> (offsetWidth p \<le> containerWidth p \<longrightarrow> x + offsetWidth p \<le> containerWidth p)
            \<and> (menuBarHeight p + offsetHeight p
                  + (if isDockVisible s then dockOffsetHeight p + 10 else 0) \<le> containerHeight p
                \<longrightarrow> y + offsetHeight p
                  + (if isDockVisible s then dockOffsetHeight p + 10 else 0) \<le> containerHeight p)
            \<and> style_width (style w') = style_width (style w)
            \<and> style_height (style w') = style_height (style w))
    \<and> getWindow (resizeMouseDown k down s) k = Some w
    \<and> getWindow (resizeMouseUp s) k = Some w
    \<and> (\<exists>w'. getWindow (dragMouseDown k down s) k = Some w' \<and> style w' = style w)
    \<and> (isSnapping w = None \<longrightarrow> getWindow (dragMouseUp k s) k = Some w)
    \<and> (\<forall>position. isSnapping w = Some position \<longrightarrow>
          map_option style (getWindow (dragMouseUp k s) k)
            = Some (snapGeometry position (isDockVisible s)))
    \<and> (activeWindowId s = Some k \<and> k \<noteq> [] \<longrightarrow>
          map_option isSnapping (getWindow (dragMouseMove k offsetX offsetY p s) k)
            = Some (if clientX p < 20 then Some SnapLeft
                    else if clientX p > desktopWidth p - 20 then Some SnapRight
                    else if clientY p < menuBarHeight p + 20 then Some SnapTop
                    else None))"
proof -
  have r: "\<exists>w' x y. getWindow (resizeMouseMove k startX startY startWidth startHeight p s) k = Some w'
            \<and> style_width (style w') = Px x \<and> style_height (style w') = Px y
            \<and> x = max 300 (startWidth + (clientX p - startX)) \<and> 300 \<le> x
            \<and> y = max 200 (startHeight + (clientY p - startY)) \<and> 200 \<le> y
            \<and> style_left (style w') = style_left (style w)
            \<and> style_top (style w') = style_top (style w)"
    using assms by (simp add: resizeMouseMove_def Let_def getWindow_modifyWindow)
  obtain x y where xy: "dragPosition True (isDockVisible s) offsetX offsetY p = (x, y)"
    by (cases "dragPosition True (isDockVisible s) offsetX offsetY p")
  from getWindow_dragMouseMove[OF assms xy] obtain w' where
    w': "getWindow (dragMouseMove k offsetX offsetY p s) k = Some w'"
      "style w' = (style w)\<lparr>style_left := Px x, style_top := Px y\<rparr>" by blast
  from w'(2) have st: "style_left (style w') = Px x" "style_top (style w') = Px y"
    "style_width (style w') = style_width (style w)"
    "style_height (style w') = style_height (style w)" by simp_all
  note b = dragPosition_bounds[OF xy]
  have d: "\<exists>w' x y. getWindow (dragMouseMove k offsetX offsetY p s) k = Some w'
            \<and> style_left (style w') = Px x \<and> style_top (style w') = Px y
            \<and> 0 \<le> x \<and> menuBarHeight p \<le> y
            \<and> (offsetWidth p \<le> containerWidth p \<longrightarrow> x + offsetWidth p \<le> containerWidth p)
            \<and> (menuBarHeight p + offsetHeight p
                  + (if isDockVisible s then dockOffsetHeight p + 10 else 0) \<le> containerHeight p
                \<longrightarrow> y + offsetHeight p
                  + (if isDockVisible s then dockOffsetHeight p + 10 else 0) \<le> containerHeight p)
            \<and> style_width (style w') = style_width (style w)
            \<and> style_height (style w') = style_height (style w)"
    using w'(1) st b by blast
  have rd: "getWindow (resizeMouseDown k down s) k = Some w"
    using assms by (simp add: resizeMouseDown_def)
  have ru: "getWindow (resizeMouseUp s) k = Some w"
    using assms by (simp add: resizeMouseUp_def)
  have dd: "\<exists>w'. getWindow (dragMouseDown k down s) k = Some w' \<and> style w' = style w"
    using assms focusWindow_keeps[OF assms, of "Some k"]
    by (auto simp: dragMouseDown_def Let_def)
  have du: "isSnapping w = None \<longrightarrow> getWindow (dragMouseUp k s) k = Some w"
    using assms by (simp add: dragMouseUp_def Let_def)
  have ds: "\<forall>position. isSnapping w = Some position \<longrightarrow>
          map_option style (getWindow (dragMouseUp k s) k)
            = Some (snapGeometry position (isDockVisible s))"
    using assms by (simp add: dragMouseUp_def Let_def applySnap_def getWindow_modifyWindow)
  have dm: "activeWindowId s = Some k \<and> k \<noteq> [] \<longrightarrow>
          map_option isSnapping (getWindow (dragMouseMove k offsetX offsetY p s) k)
            = Some (if clientX p < 20 then Some SnapLeft
                    else if clientX p > desktopWidth p - 20 then Some SnapRight
                    else if clientY p < menuBarHeight p + 20 then Some SnapTop
                    else None)"
    using assms
    by (simp add: dragMouseMove_def Let_def showSnapIndicator_def getWindow_modifyWindow
        split: prod.split)
  from r d rd ru dd du ds dm show ?thesis by (intro conjI)
qed

text \<open>
  C8, witness: the Settings window, 500 by 480, in a container of 1280 by 800 with the
  pointer at (1200, 50). A resize session started at (1500, 100) clamps the width to 300;
  a drag clamps the position to (780, 28). A drag move with the pointer at (10, 300) sets
  the left snap, and the release writes the left rectangle.
\<close>

theorem pointer_move_geometry_witness:
  "getWindow settings_open ''Settings-5'' = Some settings_window
   \<and> isSnapping settings_window = None
   \<and> offsetWidth (pointer_at 1200 50 500 480) \<le> containerWidth (pointer_at 1200 50 500 480)
   \<and> menuBarHeight (pointer_at 1200 50 500 480) + offsetHeight (pointer_at 1200 50 500 480)
        + (if isDockVisible settings_open then dockOffsetHeight (pointer_at 1200 50 500 480) + 10
           else 0) \<le> containerHeight (pointer_at 1200 50 500 480)
   \<and> map_option style (getWindow
        (resizeMouseMove ''Settings-5'' 1500 100 500 480 (pointer_at 1200 50 500 480)
           settings_open) ''Settings-5'')
       = Some \<lparr>style_top = Px 50, style_left = Px 50, style_width = Px 300,
               style_height = Px 430\<rparr>
   \<and> map_option style (getWindow
        (dragMouseMove ''Settings-5'' 10 40 (pointer_at 1200 50 500 480) settings_open)
        ''Settings-5'')
       = Some \<lparr>style_top = Px 28, style_left = Px 780, style_width = Px 500,
               style_height = Px 480\<rparr>
   \<and> getWindow (resizeMouseDown ''Settings-5'' (pointer_at 545 525 500 480) settings_open)
        ''Settings-5'' = Some settings_window
   \<and> getWindow (resizeMouseUp settings_open) ''Settings-5'' = Some settings_window
   \<and> map_option style (getWindow
        (dragMouseDown ''Settings-5'' (pointer_at 545 525 500 480) settings_open) ''Settings-5'')
       = Some (style settings_window)
   \<and> getWindow (dragMouseUp ''Settings-5'' settings_open) ''Settings-5'' = Some settings_window
   \<and> activeWindowId settings_open = Some ''Settings-5''
   \<and> map_option isSnapping (getWindow
        (dragMouseMove ''Settings-5'' 10 10 (pointer_at 10 300 500 480) settings_open)
        ''Settings-5'') = Some (Some SnapLeft)
   \<and> map_option style (getWindow
        (dragMouseUp ''Settings-5''
           (dragMouseMove ''Settings-5'' 10 10 (pointer_at 10 300 500 480) settings_open))
        ''Settings-5'')
       = Some \<lparr>style_top = Px 30, style_left = Px 2, style_width = CalcVw 50 (- 4),
               style_height = CalcVh 100 (- 102)\<rparr>"
proof -
  let ?p = "pointer_at 1200 50 500 480"
  have g: "getWindow settings_open ''Settings-5'' = Some settings_window"
    by (simp add: settings_open_def registry_eval)
  have n: "isSnapping settings_window = None" by (simp add: settings_window_def)
  have h: "offsetWidth ?p \<le> containerWidth ?p"
    "menuBarHeight ?p + offsetHeight ?p
        + (if isDockVisible settings_open then dockOffsetHeight ?p + 10 else 0)
      \<le> containerHeight ?p"
    by (simp_all add: pointer_at_def settings_open_def)
  note t = pointer_move_geometry[OF g, where startX = 1500 and startY = 100
      and startWidth = 500 and startHeight = 480 and p = ?p and offsetX = 10
      and offsetY = 40 and down = "pointer_at 545 525 500 480"]
  from t n have rest:
    "getWindow (resizeMouseDown ''Settings-5'' (pointer_at 545 525 500 480) settings_open)
        ''Settings-5'' = Some settings_window"
    "getWindow (resizeMouseUp settings_open) ''Settings-5'' = Some settings_window"
    "getWindow (dragMouseUp ''Settings-5'' settings_open) ''Settings-5'' = Some settings_window"
    by simp_all
  from t obtain w' where "getWindow
        (dragMouseDown ''Settings-5'' (pointer_at 545 525 500 480) settings_open) ''Settings-5''
       = Some w'" "style w' = style settings_window" by blast
  then have dd: "map_option style (getWindow
        (dragMouseDown ''Settings-5'' (pointer_at 545 525 500 480) settings_open) ''Settings-5'')
       = Some (style settings_window)" by simp
  have r: "map_option style (getWindow
        (resizeMouseMove ''Settings-5'' 1500 100 500 480 ?p settings_open) ''Settings-5'')
       = Some \<lparr>style_top = Px 50, style_left = Px 50, style_width = Px 300,
               style_height = Px 430\<rparr>"
    by (simp add: all_eval)
  have d: "map_option style (getWindow
        (dragMouseMove ''Settings-5'' 10 40 ?p settings_open) ''Settings-5'')
       = Some \<lparr>style_top = Px 28, style_left = Px 780, style_width = Px 500,
               style_height = Px 480\<rparr>"
    by (simp add: all_eval)
  let ?m = "dragMouseMove ''Settings-5'' 10 10 (pointer_at 10 300 500 480) settings_open"
  have act: "activeWindowId settings_open = Some ''Settings-5''"
    by (simp add: settings_open_def)
  note t2 = pointer_move_geometry[OF g, where p = "pointer_at 10 300 500 480"
      and offsetX = 10 and offsetY = 10]
  from t2 act have sn: "map_option isSnapping (getWindow ?m ''Settings-5'')
      = Some (Some SnapLeft)"
    by (simp add: pointer_at_def)
  then obtain w5 where w5: "getWindow ?m ''Settings-5'' = Some w5"
    "isSnapping w5 = Some SnapLeft" by auto
  from pointer_move_geometry[OF w5(1)] w5(2)
  have "map_option style (getWindow (dragMouseUp ''Settings-5'' ?m) ''Settings-5'')
      = Some (snapGeometry SnapLeft (isDockVisible ?m))" by blast
  moreover have "isDockVisible ?m" by (simp add: all_eval)
  ultimately have up: "map_option style (getWindow (dragMouseUp ''Settings-5'' ?m) ''Settings-5'')
       = Some \<lparr>style_top = Px 30, style_left = Px 2, style_width = CalcVw 50 (- 4),
               style_height = CalcVh 100 (- 102)\<rparr>"
    by (simp add: snapGeometry_def)
  show ?thesis using g n h r d rest dd act sn up by (intro conjI)
qed

subsection \<open>C9: window ids\<close>

text \<open>
  C9. The code at the failing input: two Notepad windows created at the same clock
  reading get the same id \<^verbatim>\<open>Notepad-5\<close>, and \<^verbatim>\<open>state.windows.set\<close> replaces the first
  record by the second: after two creations the registry holds one record.
\<close>

theorem windowId_collision:
  "windowId ''Notepad'' 5 = ''Notepad-5''
   \<and> \<not> singleInstance ''Notepad''
   \<and> map fst (entries (openApp ''Notepad'' (env_at 5) initial_state)) = [''Notepad-5'']
   \<and> map_option zIndex (getWindow (openApp ''Notepad'' (env_at 5) initial_state) ''Notepad-5'')
       = Some 101
   \<and> map fst (entries (openApp ''Notepad'' (env_at 5)
        (openApp ''Notepad'' (env_at 5) initial_state))) = [''Notepad-5'']
   \<and> map_option zIndex (getWindow (openApp ''Notepad'' (env_at 5)
        (openApp ''Notepad'' (env_at 5) initial_state)) ''Notepad-5'') = Some 102"
  by (simp add: all_eval singleInstance_def)

subsection \<open>C10: restoring a record that is closing\<close>

text \<open>
  C10, counterexample. Three records with \<^verbatim>\<open>isOpen = false\<close> that are still in the
  registry. A Settings record that was minimized during its grace period (Ctrl+Q, then
  Ctrl+M): \<^verbatim>\<open>restoreWindow\<close> takes its first branch, un-minimizes and focuses that very
  record, and creates nothing. A closing Trash message window: \<^verbatim>\<open>openApp('TrashMessage')\<close>
  finds no definition and the call changes nothing. A closing Settings record beside a
  Settings window opened meanwhile: \<^verbatim>\<open>openApp\<close> goes to the open window, which is
  already focused, and the call changes nothing.
\<close>

theorem restoreWindow_closing_other_outcomes:
  "reachable settings_closing_minimized
   \<and> map fst (entries settings_closing_minimized) = [''Settings-5'']
   \<and> map_option isOpen (getWindow settings_closing_minimized ''Settings-5'') = Some False
   \<and> map_option isMinimized (getWindow settings_closing_minimized ''Settings-5'') = Some True
   \<and> activeWindowId settings_closing_minimized = None
   \<and> activeWindowId (restoreWindow ''Settings-5'' (env_at 7) settings_closing_minimized)
       = Some ''Settings-5''
   \<and> map fst (entries (restoreWindow ''Settings-5'' (env_at 7) settings_closing_minimized))
       = [''Settings-5'']
   \<and> map_option isOpen (getWindow
        (restoreWindow ''Settings-5'' (env_at 7) settings_closing_minimized) ''Settings-5'')
       = Some False
   \<and> reachable trash_closing
   \<and> map fst (entries trash_closing) = [''TrashMessage-5'']
   \<and> map_option isOpen (getWindow trash_closing ''TrashMessage-5'') = Some False
   \<and> map_option isMinimized (getWindow trash_closing ''TrashMessage-5'') = Some False
   \<and> restoreWindow ''TrashMessage-5'' (env_at 7) trash_closing = trash_closing
   \<and> reachable settings_reopened
   \<and> map fst (entries settings_reopened) = [''Settings-5'', ''Settings-6'']
   \<and> map_option isOpen (getWindow settings_reopened ''Settings-5'') = Some False
   \<and> map_option isMinimized (getWindow settings_reopened ''Settings-5'') = Some False
   \<and> restoreWindow ''Settings-5'' (env_at 7) settings_reopened = settings_reopened"
proof -
  have a: "map fst (entries settings_closing_minimized) = [''Settings-5'']"
    "map_option isOpen (getWindow settings_closing_minimized ''Settings-5'') = Some False"
    "map_option isMinimized (getWindow settings_closing_minimized ''Settings-5'') = Some True"
    "activeWindowId settings_closing_minimized = None"
    "activeWindowId (restoreWindow ''Settings-5'' (env_at 7) settings_closing_minimized)
       = Some ''Settings-5''"
    "map fst (entries (restoreWindow ''Settings-5'' (env_at 7) settings_closing_minimized))
       = [''Settings-5'']"
    "map_option isOpen (getWindow
        (restoreWindow ''Settings-5'' (env_at 7) settings_closing_minimized) ''Settings-5'')
       = Some False"
    by (simp_all add: all_eval)
  have b: "map fst (entries trash_closing) = [''TrashMessage-5'']"
    "map_option isOpen (getWindow trash_closing ''TrashMessage-5'') = Some False"
    "map_option isMinimized (getWindow trash_closing ''TrashMessage-5'') = Some False"
    "restoreWindow ''TrashMessage-5'' (env_at 7) trash_closing = trash_closing"
    by (simp_all add: all_eval)
  have c: "map fst (entries settings_reopened) = [''Settings-5'', ''Settings-6'']"
    "map_option isOpen (getWindow settings_reopened ''Settings-5'') = Some False"
    "map_option isMinimized (getWindow settings_reopened ''Settings-5'') = Some False"
    "restoreWindow ''Settings-5'' (env_at 7) settings_reopened = settings_reopened"
    by (simp_all add: all_eval)
  show ?thesis
    using reachable_settings_closing_minimized reachable_trash_closing
      reachable_settings_reopened a b c
    by (intro conjI)
qed

text \<open>
  C10, amended. If \<^verbatim>\<open>restoreWindow(id)\<close> is called on a record that is in the registry
  with \<^verbatim>\<open>isOpen = false\<close> and is not minimized, the call is \<^verbatim>\<open>openApp(baseAppId)\<close>. When
  that application is launchable and either allows multiple instances or has no open
  record, this creates a new open record under the id \<^verbatim>\<open>baseAppId-now\<close>, which becomes
  the active window, and the closing record is left as it was (when the ids differ).
\<close>

theorem restoreWindow_closing_record:
  assumes "getWindow s k = Some w" and "\<not> isOpen w" and "\<not> isMinimized w"
  shows "restoreWindow k e s = openApp (baseAppId w) e s
    \<and> (\<forall>d. findAppDef (baseAppId w) = Some d \<and> isLaunchable d
          \<and> (allowMultipleInstances d \<or> \<not> list_ex (sameOpenApp (baseAppId w)) (entries s))
        \<longrightarrow> activeWindowId (restoreWindow k e s) = Some (windowId (baseAppId w) (now e))
          \<and> (\<exists>w'. getWindow (restoreWindow k e s) (windowId (baseAppId w) (now e)) = Some w'
                \<and> baseAppId w' = baseAppId w \<and> isOpen w' \<and> \<not> isMinimized w'
                \<and> \<not> isMaximized w' \<and> originalPosition w' = None)
          \<and> (windowId (baseAppId w) (now e) \<noteq> k
                \<longrightarrow> getWindow (restoreWindow k e s) k = Some w))"
proof -
  let ?a = "baseAppId w"
  let ?n = "windowId ?a (now e)"
  have eq: "restoreWindow k e s = openApp ?a e s"
    using assms by (simp add: restoreWindow_cases)
  have new: "activeWindowId (openApp ?a e s) = Some ?n
          \<and> (\<exists>w'. getWindow (openApp ?a e s) ?n = Some w'
                \<and> baseAppId w' = ?a \<and> isOpen w' \<and> \<not> isMinimized w'
                \<and> \<not> isMaximized w' \<and> originalPosition w' = None)
          \<and> (?n \<noteq> k \<longrightarrow> getWindow (openApp ?a e s) k = Some w)"
    if d: "findAppDef ?a = Some d" "isLaunchable d"
      "allowMultipleInstances d \<or> \<not> list_ex (sameOpenApp ?a) (entries s)" for d
  proof -
    let ?nw = "newWindow (openAppOptions ?a d e s) (Some d) (nextZIndex s)"
    let ?s1 = "inserted ?n ?nw s"
    have b: "opt_baseAppId (openAppOptions ?a d e s) = ?a"
      by (simp add: openAppOptions_def Let_def)
    have g: "getWindow ?s1 ?n = Some ?nw" by simp
    have o: "openApp ?a e s = updateWindowMenu (focusWindow (Some ?n) ?s1)"
      by (rule openApp_none_open[OF d])
    have 1: "activeWindowId (openApp ?a e s) = Some ?n"
      unfolding o using activeWindowId_focusWindow[OF g] by simp
    have 2: "\<exists>w'. getWindow (openApp ?a e s) ?n = Some w'
                \<and> baseAppId w' = ?a \<and> isOpen w' \<and> \<not> isMinimized w'
                \<and> \<not> isMaximized w' \<and> originalPosition w' = None"
      unfolding o using focusWindow_keeps[OF g, of "Some ?n"] b by auto
    have 3: "getWindow (openApp ?a e s) k = Some w" if ne: "?n \<noteq> k"
    proof -
      from ne assms(1) have "getWindow ?s1 k = Some w" by simp
      from focusWindow_keeps[OF this, of "Some ?n"] ne show ?thesis
        unfolding o by auto
    qed
    from 1 2 3 show ?thesis by blast
  qed
  show ?thesis unfolding eq using new by blast
qed

text \<open>
  C10, witness: the closing Settings window; \<^verbatim>\<open>restoreWindow('Settings-5')\<close> at clock
  reading 7 adds \<^verbatim>\<open>Settings-7\<close> and focuses it.
\<close>

theorem restoreWindow_closing_record_witness:
  "getWindow settings_closing ''Settings-5'' = Some (settings_window\<lparr>isOpen := False\<rparr>)
   \<and> \<not> isOpen (settings_window\<lparr>isOpen := False\<rparr>)
   \<and> \<not> isMinimized (settings_window\<lparr>isOpen := False\<rparr>)
   \<and> findAppDef ''Settings'' = Some (appDef ''Settings'' True False (Some ''settings-content'')
        (Some (Px 500)) (Some (Px 480)))
   \<and> isLaunchable (appDef ''Settings'' True False (Some ''settings-content'')
        (Some (Px 500)) (Some (Px 480)))
   \<and> \<not> list_ex (sameOpenApp ''Settings'') (entries settings_closing)
   \<and> windowId ''Settings'' (now (env_at 7)) = ''Settings-7''
   \<and> restoreWindow ''Settings-5'' (env_at 7) settings_closing
       = openApp ''Settings'' (env_at 7) settings_closing
   \<and> activeWindowId (restoreWindow ''Settings-5'' (env_at 7) settings_closing)
       = Some ''Settings-7''
   \<and> map fst (entries (restoreWindow ''Settings-5'' (env_at 7) settings_closing))
       = [''Settings-5'', ''Settings-7'']
   \<and> map_option isOpen (getWindow
        (restoreWindow ''Settings-5'' (env_at 7) settings_closing) ''Settings-7'') = Some True
   \<and> getWindow (restoreWindow ''Settings-5'' (env_at 7) settings_closing) ''Settings-5''
       = Some (settings_window\<lparr>isOpen := False\<rparr>)"
proof -
  let ?w = "settings_window\<lparr>isOpen := False\<rparr>"
  have g: "getWindow settings_closing ''Settings-5'' = Some ?w"
    by (simp add: settings_closing_def registry_eval)
  have o: "\<not> isOpen ?w" and m: "\<not> isMinimized ?w" by (simp_all add: settings_window_def)
  have n: "\<not> list_ex (sameOpenApp ''Settings'') (entries settings_closing)"
    by (simp add: all_eval)
  note t = restoreWindow_closing_record[OF g o m, of "env_at 7"]
  from t have e: "restoreWindow ''Settings-5'' (env_at 7) settings_closing
       = openApp ''Settings'' (env_at 7) settings_closing"
    by (simp add: settings_window_def)
  have a: "activeWindowId (openApp ''Settings'' (env_at 7) settings_closing) = Some ''Settings-7''"
    "map fst (entries (openApp ''Settings'' (env_at 7) settings_closing))
       = [''Settings-5'', ''Settings-7'']"
    "map_option isOpen (getWindow
        (openApp ''Settings'' (env_at 7) settings_closing) ''Settings-7'') = Some True"
    "getWindow (openApp ''Settings'' (env_at 7) settings_closing) ''Settings-5''
       = Some (settings_window\<lparr>isOpen := False\<rparr>)"
    by (simp_all add: all_eval)
  have l: "isLaunchable (appDef ''Settings'' True False (Some ''settings-content'')
        (Some (Px 500)) (Some (Px 480)))" by (simp add: appDef_def)
  have i: "windowId ''Settings'' (now (env_at 7)) = ''Settings-7''" by (simp add: all_eval)
  show ?thesis using g o m settingsDef l n i e a[folded e] by (intro conjI)
qed

end
